theory Spec2Isabelle
  imports Complex_Main
begin

section \<open>Time\<close>

text \<open>
  A JavaScript \<^verbatim>\<open>Date\<close> is its time value: an integer number of milliseconds since
  the epoch. An ISO-8601 timestamp string (\<^verbatim>\<open>startISO\<close>, \<^verbatim>\<open>startDateISO\<close>, ...) is
  taken to be valid. The strings of a slot are always the output of \<^verbatim>\<open>toISOString()\<close>,
  and those of a stored appointment are only ever parsed: both are held as the instant
  they denote. A string that arrives with a request is an \<open>isoString\<close> (below); an absent
  or empty one is \<open>None\<close> where the code tests for it. The local-time accessors are
  modelled for a local time zone that is UTC, without daylight saving: a calendar day is
  86400000 ms and 1970-01-01 was a Thursday (weekday 4). The clock (\<^verbatim>\<open>new Date()\<close>) is
  the parameter \<open>now\<close>, read once per operation. Slot durations are whole minutes.
\<close>

definition msPerDay :: int where
  "msPerDay = 86400000"

definition getDay :: "int \<Rightarrow> int" where
  "getDay t = (t div msPerDay + 4) mod 7"

text \<open>\<^verbatim>\<open>d.setDate(d.getDate() + n)\<close>\<close>

definition addDays :: "int \<Rightarrow> int \<Rightarrow> int" where
  "addDays t n = t + n * msPerDay"

text \<open>\<^verbatim>\<open>d.setHours(h, m, s, ms)\<close>\<close>

definition setHours :: "int \<Rightarrow> int \<Rightarrow> int \<Rightarrow> int \<Rightarrow> int \<Rightarrow> int" where
  "setHours t h m s ms = t - t mod msPerDay + h * 3600000 + m * 60000 + s * 1000 + ms"

text \<open>
  A timestamp string of a request: the instant \<^verbatim>\<open>new Date(s)\<close> reads from it, and whether
  its text is the one \<^verbatim>\<open>toISOString()\<close> writes for that instant (\<open>2026-11-02T10:00:00Z\<close>
  denotes an instant and is not the text \<open>2026-11-02T10:00:00.000Z\<close> written for it). The
  code compares such a string with \<^verbatim>\<open>===\<close> only against the strings of slots, which
  \<^verbatim>\<open>toISOString()\<close> wrote: the comparison is the equality of \<open>isoString\<close> values.
\<close>

datatype isoString = IsoString (instant: int) (canonical: bool)

definition toISOString :: "int \<Rightarrow> isoString" where
  "toISOString t = IsoString t True"

section \<open>Entities\<close>

text \<open>
  \<^verbatim>\<open>Availability\<close>: the \<^verbatim>\<open>"HH:MM"\<close> strings are held as the pair of numbers that
  \<^verbatim>\<open>timeString.split(':').map(Number)\<close> yields.
\<close>

record availability =
  av_id :: string
  weekday :: int
  startTime :: "int \<times> int"
  endTime :: "int \<times> int"
  rrule :: "string option"

record timeSlot =
  startISO :: int
  endISO :: int
  ts_doctorId :: string

record doctor =
  d_id :: string
  d_name :: string
  specialties :: "string list"
  weeklyAvailability :: "availability list"
  rating :: real
  d_location :: string

datatype appointmentStatus = Scheduled | Confirmed | Cancelled | Completed

record appointment =
  apt_id :: string
  doctorId :: string
  doctorName :: string
  ownerName :: string
  petName :: string
  disease :: "string option"
  startDateISO :: int
  endDateISO :: int
  status :: appointmentStatus
  location :: "string option"
  apt_notes :: "string option"
  createdAt :: "int option"
  updatedAt :: "int option"

record appointmentCreate =
  c_doctorId :: string
  c_doctorName :: string
  c_ownerName :: string
  c_petName :: string
  c_disease :: "string option"
  c_startDateISO :: "isoString option"
  c_endDateISO :: "isoString option"
  c_location :: "string option"
  c_notes :: "string option"

text \<open>The two collections behind the repository.\<close>

record store =
  doctors :: "doctor list"
  appointments :: "appointment list"

section \<open>Recurrence expansion (rruleHelpers.ts)\<close>

text \<open>First loop of \<^verbatim>\<open>expandAvailabilityToDates\<close>: find the first occurrence of the weekday.\<close>

function findFirst :: "int \<Rightarrow> int \<Rightarrow> int \<Rightarrow> int" where
  "findFirst wd toDate current =
     (if getDay current \<noteq> wd \<and> current \<le> toDate
      then findFirst wd toDate (addDays current 1)
      else current)"
  by pat_completeness auto
termination
  by (relation "measure (\<lambda>(wd, toDate, current). nat (toDate - current + 1))")
     (auto simp: addDays_def msPerDay_def)

text \<open>Second loop: the weekly occurrences, each pushed onto \<^verbatim>\<open>dates\<close>.\<close>

function weeklyLoop :: "int \<Rightarrow> int \<Rightarrow> int list" where
  "weeklyLoop toDate current =
     (if current \<le> toDate then current # weeklyLoop toDate (addDays current 7) else [])"
  by pat_completeness auto
termination
  by (relation "measure (\<lambda>(toDate, current). nat (toDate - current + 1))")
     (auto simp: addDays_def msPerDay_def)

definition expandWeekly :: "availability \<Rightarrow> int \<Rightarrow> int \<Rightarrow> int list" where
  "expandWeekly availability fromDate toDate =
     weeklyLoop toDate (findFirst (weekday availability) toDate fromDate)"

text \<open>
  The rrule library is not part of the repository: \<open>rr s fromDate toDate\<close> stands for
  \<^verbatim>\<open>RRule.fromString(s).between(fromDate, toDate, true)\<close>, \<open>None\<close> when it throws.
  \<^verbatim>\<open>!availability.rrule\<close> holds for an absent and for an empty string.
\<close>

type_synonym rruleLib = "string \<Rightarrow> int \<Rightarrow> int \<Rightarrow> int list option"

definition expandAvailabilityToDates ::
  "rruleLib \<Rightarrow> availability \<Rightarrow> int \<Rightarrow> int \<Rightarrow> int list" where
  "expandAvailabilityToDates rr availability fromDate toDate =
     (case rrule availability of
        None \<Rightarrow> expandWeekly availability fromDate toDate
      | Some s \<Rightarrow>
          if s = [] then expandWeekly availability fromDate toDate
          else (case rr s fromDate toDate of
                  Some occurrences \<Rightarrow> occurrences
                | None \<Rightarrow> expandWeekly (availability\<lparr>rrule := None\<rparr>) fromDate toDate))"

section \<open>Slot slicing (rruleHelpers.ts)\<close>

text \<open>
  The loop of \<^verbatim>\<open>generateSlotsForBlock\<close>, with \<open>step\<close> the slot length in milliseconds.
  It does not return when \<open>step \<le> 0\<close> and the block is not empty: the value is then
  \<open>None\<close>.
\<close>

partial_function (option) slotsLoop ::
  "int \<Rightarrow> int \<Rightarrow> int \<Rightarrow> (int \<times> int) list \<Rightarrow> (int \<times> int) list option" where
  "slotsLoop endDatetime step current slots =
     (if current < endDatetime
      then slotsLoop endDatetime step (current + step)
             (if current + step \<le> endDatetime then slots @ [(current, current + step)]
              else slots)
      else Some slots)"

declare slotsLoop.simps [code]

definition generateSlotsForBlock :: "int \<Rightarrow> int \<Rightarrow> int \<Rightarrow> (int \<times> int) list option" where
  "generateSlotsForBlock startDatetime endDatetime slotDurationMinutes =
     slotsLoop endDatetime (slotDurationMinutes * 60 * 1000) startDatetime []"

definition combineDateAndTime :: "int \<Rightarrow> int \<times> int \<Rightarrow> int" where
  "combineDateAndTime date timeString =
     (case timeString of (hours, minutes) \<Rightarrow> setHours date hours minutes 0 0)"

section \<open>Repository (AppointmentRepositoryImpl.ts)\<close>

text \<open>
  The storage collaborator is taken to be reliable: loading returns the stored collection
  and saving replaces it.
\<close>

definition getDoctorById :: "store \<Rightarrow> string \<Rightarrow> doctor option" where
  "getDoctorById st ident = find (\<lambda>doctor. d_id doctor = ident) (doctors st)"

definition getAppointmentById :: "store \<Rightarrow> string \<Rightarrow> appointment option" where
  "getAppointmentById st ident = find (\<lambda>appointment. apt_id appointment = ident) (appointments st)"

definition createAppointment :: "store \<Rightarrow> appointment \<Rightarrow> store" where
  "createAppointment st appointment = st\<lparr>appointments := appointments st @ [appointment]\<rparr>"

fun findIndex :: "('a \<Rightarrow> bool) \<Rightarrow> 'a list \<Rightarrow> nat option" where
  "findIndex P [] = None"
| "findIndex P (x # xs) = (if P x then Some 0 else map_option Suc (findIndex P xs))"

text \<open>\<open>Inl\<close> is the message of the \<^verbatim>\<open>Error\<close> thrown.\<close>

definition updateAppointment :: "store \<Rightarrow> appointment \<Rightarrow> string + store" where
  "updateAppointment st appointment =
     (case findIndex (\<lambda>a. apt_id a = apt_id appointment) (appointments st) of
        None \<Rightarrow> Inl (''Appointment with ID '' @ apt_id appointment @ '' not found'')
      | Some index \<Rightarrow> Inr (st\<lparr>appointments := (appointments st)[index := appointment]\<rparr>))"

definition getAppointmentsByDoctorAndDateRange ::
  "store \<Rightarrow> string \<Rightarrow> int \<Rightarrow> int \<Rightarrow> appointment list" where
  "getAppointmentsByDoctorAndDateRange st ident startDate endDate =
     filter (\<lambda>appointment.
        if doctorId appointment \<noteq> ident then False
        else (startDateISO appointment \<ge> startDate \<and> startDateISO appointment \<le> endDate)
           \<or> (endDateISO appointment \<ge> startDate \<and> endDateISO appointment \<le> endDate)
           \<or> (startDateISO appointment \<le> startDate \<and> endDateISO appointment \<ge> endDate))
       (appointments st)"

section \<open>Available slots (GetAvailableSlotsUseCase)\<close>

text \<open>
  A \<^verbatim>\<open>for\<close> loop whose body appends the slots of one element to \<^verbatim>\<open>allSlots\<close>; it does
  not return when a body does not.
\<close>

fun collect :: "('a \<Rightarrow> 'b list option) \<Rightarrow> 'a list \<Rightarrow> 'b list option" where
  "collect f [] = Some []"
| "collect f (x # xs) =
     (case f x of
        None \<Rightarrow> None
      | Some ys \<Rightarrow> (case collect f xs of None \<Rightarrow> None | Some zs \<Rightarrow> Some (ys @ zs)))"

text \<open>The body of the loop over \<^verbatim>\<open>availableDates\<close> in \<^verbatim>\<open>generateAllPossibleSlots\<close>.\<close>

definition slotsForDate ::
  "doctor \<Rightarrow> availability \<Rightarrow> int \<Rightarrow> int \<Rightarrow> int \<Rightarrow> timeSlot list option" where
  "slotsForDate doctor availability slotDurationMinutes now date =
     (let startDateTime = combineDateAndTime date (startTime availability);
          endDateTime = combineDateAndTime date (endTime availability)
      in if endDateTime < now then Some []
         else (case generateSlotsForBlock startDateTime endDateTime slotDurationMinutes of
                 None \<Rightarrow> None
               | Some timeSlots \<Rightarrow>
                   Some (map (\<lambda>slot. \<lparr>startISO = fst slot, endISO = snd slot,
                                       ts_doctorId = d_id doctor\<rparr>)
                          (filter (\<lambda>slot. \<not> fst slot < now) timeSlots))))"

definition generateAllPossibleSlots ::
  "rruleLib \<Rightarrow> doctor \<Rightarrow> int \<Rightarrow> int \<Rightarrow> int \<Rightarrow> int \<Rightarrow> timeSlot list option" where
  "generateAllPossibleSlots rr doctor startDate endDate slotDurationMinutes now =
     collect (\<lambda>availability.
        collect (slotsForDate doctor availability slotDurationMinutes now)
          (expandAvailabilityToDates rr availability startDate endDate))
       (weeklyAvailability doctor)"

definition hasConflict :: "timeSlot \<Rightarrow> appointment list \<Rightarrow> bool" where
  "hasConflict slot existingAppointments =
     list_ex (\<lambda>appointment.
        if status appointment = Cancelled then False
        else (startISO slot \<ge> startDateISO appointment \<and> startISO slot < endDateISO appointment)
           \<or> (endISO slot > startDateISO appointment \<and> endISO slot \<le> endDateISO appointment)
           \<or> (startISO slot \<le> startDateISO appointment \<and> endISO slot \<ge> endDateISO appointment))
       existingAppointments"

definition filterBookedSlots :: "timeSlot list \<Rightarrow> appointment list \<Rightarrow> timeSlot list" where
  "filterBookedSlots allSlots existingAppointments =
     filter (\<lambda>slot. \<not> hasConflict slot existingAppointments) allSlots"

text \<open>
  \<^verbatim>\<open>GetAvailableSlotsUseCase.execute\<close>. \<open>Some (Inl msg)\<close> is the \<^verbatim>\<open>Error\<close> thrown,
  \<open>None\<close> is no return. \<^verbatim>\<open>Array.prototype.sort\<close> is stable, as \<open>sort_key\<close> is.
\<close>

definition getAvailableSlots ::
  "rruleLib \<Rightarrow> int \<Rightarrow> store \<Rightarrow> string \<Rightarrow> int \<Rightarrow> int \<Rightarrow> int \<Rightarrow> (string + timeSlot list) option" where
  "getAvailableSlots rr now st ident fromDate toDate slotDurationMinutes =
     (case getDoctorById st ident of
        None \<Rightarrow> Some (Inl (''Doctor with ID '' @ ident @ '' not found''))
      | Some doctor \<Rightarrow>
          (let existingAppointments =
                 getAppointmentsByDoctorAndDateRange st ident fromDate toDate
           in case generateAllPossibleSlots rr doctor fromDate toDate slotDurationMinutes now of
                None \<Rightarrow> None
              | Some allPossibleSlots \<Rightarrow>
                  Some (Inr (sort_key startISO
                               (filterBookedSlots allPossibleSlots existingAppointments)))))"

definition getNextAvailableSlots ::
  "rruleLib \<Rightarrow> int \<Rightarrow> store \<Rightarrow> string \<Rightarrow> nat \<Rightarrow> int \<Rightarrow> (string + timeSlot list) option" where
  "getNextAvailableSlots rr now st ident count slotDurationMinutes =
     (let futureDate = addDays now 30
      in case getAvailableSlots rr now st ident now futureDate slotDurationMinutes of
           None \<Rightarrow> None
         | Some (Inl msg) \<Rightarrow> Some (Inl msg)
         | Some (Inr allSlots) \<Rightarrow> Some (Inr (take count allSlots)))"

section \<open>Booking (BookAppointmentUseCase)\<close>

record bookingResult =
  success :: bool
  appointment_of :: "appointment option"
  error :: "string option"
  nextAvailableSlots :: "(int \<times> int) list option"

definition bookingFailure :: "string \<Rightarrow> bookingResult" where
  "bookingFailure msg =
     \<lparr>success = False, appointment_of = None, error = Some msg, nextAvailableSlots = None\<rparr>"

text \<open>The \<^verbatim>\<open>catch\<close> of \<^verbatim>\<open>validateSlotAvailability\<close> turns a thrown error into \<^verbatim>\<open>false\<close>.\<close>

definition validateSlotAvailability ::
  "rruleLib \<Rightarrow> int \<Rightarrow> store \<Rightarrow> string \<Rightarrow> isoString \<Rightarrow> isoString \<Rightarrow> bool option" where
  "validateSlotAvailability rr now st ident startISO' endISO' =
     (let requestedDate = instant startISO';
          dayStart = setHours requestedDate 0 0 0 0;
          dayEnd = setHours requestedDate 23 59 59 999
      in case getAvailableSlots rr now st ident dayStart dayEnd 30 of
           None \<Rightarrow> None
         | Some (Inl msg) \<Rightarrow> Some False
         | Some (Inr availableSlots) \<Rightarrow>
             Some (list_ex (\<lambda>slot. toISOString (startISO slot) = startISO'
                                  \<and> toISOString (endISO slot) = endISO')
                     availableSlots))"

text \<open>The branch taken when the requested slot is not available.\<close>

definition slotTaken ::
  "rruleLib \<Rightarrow> int \<Rightarrow> store \<Rightarrow> string \<Rightarrow> string \<Rightarrow> (bookingResult \<times> store) option" where
  "slotTaken rr now st ident msg =
     (case getNextAvailableSlots rr now st ident 3 30 of
        None \<Rightarrow> None
      | Some (Inl thrown) \<Rightarrow> Some (bookingFailure thrown, st)
      | Some (Inr nextSlots) \<Rightarrow>
          Some (\<lparr>success = False, appointment_of = None, error = Some msg,
                 nextAvailableSlots =
                   Some (map (\<lambda>slot. (startISO slot, endISO slot)) nextSlots)\<rparr>, st))"

text \<open>
  \<^verbatim>\<open>BookAppointmentUseCase.execute\<close>; \<open>uuid\<close> is the value of \<^verbatim>\<open>generateUUID()\<close>.
\<close>

definition bookAppointment ::
  "rruleLib \<Rightarrow> string \<Rightarrow> int \<Rightarrow> store \<Rightarrow> appointmentCreate \<Rightarrow> (bookingResult \<times> store) option" where
  "bookAppointment rr uuid now st appointmentData =
     (case (c_startDateISO appointmentData, c_endDateISO appointmentData) of
        (Some startDateISO', Some endDateISO') \<Rightarrow>
          if c_doctorId appointmentData = []
          then Some (bookingFailure ''Missing required appointment data'', st)
          else if instant endDateISO' \<le> instant startDateISO'
          then Some (bookingFailure ''End time must be after start time'', st)
          else if instant startDateISO' < now
          then Some (bookingFailure ''Cannot book appointments in the past'', st)
          else (case validateSlotAvailability rr now st (c_doctorId appointmentData)
                       startDateISO' endDateISO' of
                  None \<Rightarrow> None
                | Some False \<Rightarrow>
                    slotTaken rr now st (c_doctorId appointmentData) ''Slot already booked''
                | Some True \<Rightarrow>
                    (let appointment =
                       \<lparr>apt_id = uuid,
                        doctorId = c_doctorId appointmentData,
                        doctorName = c_doctorName appointmentData,
                        ownerName = c_ownerName appointmentData,
                        petName = c_petName appointmentData,
                        disease = c_disease appointmentData,
                        startDateISO = instant startDateISO',
                        endDateISO = instant endDateISO',
                        status = Scheduled,
                        location = c_location appointmentData,
                        apt_notes = c_notes appointmentData,
                        createdAt = Some now,
                        updatedAt = Some now\<rparr>
                     in Some (\<lparr>success = True, appointment_of = Some appointment,
                               error = None, nextAvailableSlots = None\<rparr>,
                              createAppointment st appointment)))
      | _ \<Rightarrow> Some (bookingFailure ''Missing required appointment data'', st))"

text \<open>\<^verbatim>\<open>BookAppointmentUseCase.reschedule\<close>\<close>

definition reschedule ::
  "rruleLib \<Rightarrow> int \<Rightarrow> store \<Rightarrow> string \<Rightarrow> isoString \<Rightarrow> isoString
     \<Rightarrow> (bookingResult \<times> store) option" where
  "reschedule rr now st appointmentId newStartISO newEndISO =
     (case getAppointmentById st appointmentId of
        None \<Rightarrow> Some (bookingFailure ''Appointment not found'', st)
      | Some existingAppointment \<Rightarrow>
          (case validateSlotAvailability rr now st (doctorId existingAppointment)
                  newStartISO newEndISO of
             None \<Rightarrow> None
           | Some False \<Rightarrow>
               slotTaken rr now st (doctorId existingAppointment) ''New slot already booked''
           | Some True \<Rightarrow>
               (let updatedAppointment =
                      existingAppointment\<lparr>startDateISO := instant newStartISO,
                                          endDateISO := instant newEndISO,
                                          updatedAt := Some now\<rparr>
                in case updateAppointment st updatedAppointment of
                     Inl thrown \<Rightarrow> Some (bookingFailure thrown, st)
                   | Inr st' \<Rightarrow>
                       Some (\<lparr>success = True, appointment_of = Some updatedAppointment,
                              error = None, nextAvailableSlots = None\<rparr>, st'))))"

section \<open>Cancellation (CancelAppointmentUseCase)\<close>

record cancelResult =
  cr_success :: bool
  cr_appointment :: "appointment option"
  cr_error :: "string option"

definition cancelFailure :: "string \<Rightarrow> cancelResult" where
  "cancelFailure msg = \<lparr>cr_success = False, cr_appointment = None, cr_error = Some msg\<rparr>"

text \<open>
  \<^verbatim>\<open>String.prototype.trim\<close> on characters below 256: tab, line feed, vertical tab,
  form feed, carriage return, space and no-break space are removed at both ends.
\<close>

definition isWhiteSpace :: "char \<Rightarrow> bool" where
  "isWhiteSpace c = ((of_char c :: nat) \<in> {9, 10, 11, 12, 13, 32, 160})"

definition trim :: "string \<Rightarrow> string" where
  "trim s = rev (dropWhile isWhiteSpace (rev (dropWhile isWhiteSpace s)))"

text \<open>\<^verbatim>\<open>`${existingAppointment.notes || ''}\nCancellation reason: ${reason}`.trim()\<close>\<close>

definition cancellationNotes :: "string option \<Rightarrow> string \<Rightarrow> string" where
  "cancellationNotes existingNotes reason =
     trim ((case existingNotes of None \<Rightarrow> [] | Some n \<Rightarrow> n)
           @ [CHR 0x0A] @ ''Cancellation reason: '' @ reason)"

text \<open>
  \<^verbatim>\<open>CancelAppointmentUseCase.execute\<close>; \<^verbatim>\<open>reason ? ... : ...\<close> takes the second branch
  for an absent and for an empty reason.
\<close>

definition cancelAppointment ::
  "int \<Rightarrow> store \<Rightarrow> string \<Rightarrow> string option \<Rightarrow> cancelResult \<times> store" where
  "cancelAppointment now st appointmentId reason =
     (case getAppointmentById st appointmentId of
        None \<Rightarrow> (cancelFailure ''Appointment not found'', st)
      | Some existingAppointment \<Rightarrow>
          if status existingAppointment = Cancelled
          then (cancelFailure ''Appointment is already cancelled'', st)
          else if startDateISO existingAppointment < now
          then (cancelFailure ''Cannot cancel past appointments'', st)
          else (let cancelledAppointment =
                      existingAppointment
                        \<lparr>status := Cancelled,
                         apt_notes :=
                           (case reason of
                              None \<Rightarrow> apt_notes existingAppointment
                            | Some r \<Rightarrow>
                                if r = [] then apt_notes existingAppointment
                                else Some (cancellationNotes
                                             (apt_notes existingAppointment) r)),
                         updatedAt := Some now\<rparr>
                in case updateAppointment st cancelledAppointment of
                     Inl thrown \<Rightarrow> (cancelFailure thrown, st)
                   | Inr st' \<Rightarrow>
                       (\<lparr>cr_success = True, cr_appointment = Some cancelledAppointment,
                         cr_error = None\<rparr>, st')))"

section \<open>The overlap predicate of the specification\<close>

text \<open>
  The overlap predicate in the words of the specification (section 4.4), between a slot
  \<open>[s1, e1)\<close> and an appointment \<open>[s2, e2)\<close>.
\<close>

definition specOverlap :: "int \<Rightarrow> int \<Rightarrow> int \<Rightarrow> int \<Rightarrow> bool" where
  "specOverlap s1 e1 s2 e2 =
     ((s2 \<le> s1 \<and> s1 < e2) \<or> (s2 < e1 \<and> e1 \<le> e2) \<or> (s1 \<le> s2 \<and> e1 \<ge> e2))"

section \<open>Sample data\<close>

text \<open>A rule for Monday 09:00 to 12:00 without recurrence descriptor, as seeded for the
  first sample doctor, and an rrule library that rejects every descriptor.\<close>

definition mondayMorning :: availability where
  "mondayMorning = \<lparr>av_id = ''a1'', weekday = 1, startTime = (9, 0), endTime = (12, 0),
                    rrule = None\<rparr>"

definition noRRule :: rruleLib where
  "noRRule s fromDate toDate = None"

definition sampleAppointment :: appointment where
  "sampleAppointment =
     \<lparr>apt_id = ''apt-1'', doctorId = ''doc-1'', doctorName = ''Dr. Sarah Johnson'',
      ownerName = ''John Smith'', petName = ''Buddy'', disease = Some ''dental cleaning'',
      startDateISO = 1793610000000, endDateISO = 1793611800000, status = Scheduled,
      location = Some ''Downtown Clinic'', apt_notes = None,
      createdAt = Some 1793500000000, updatedAt = Some 1793500000000\<rparr>"

definition slotAt :: "int \<Rightarrow> timeSlot" where
  "slotAt s = \<lparr>startISO = s, endISO = s + 1800000, ts_doctorId = ''doc-1''\<rparr>"

definition sampleDoctor :: doctor where
  "sampleDoctor =
     \<lparr>d_id = ''doc-1'', d_name = ''Dr. Sarah Johnson'', specialties = [''dental'', ''general''],
      weeklyAvailability = [mondayMorning], rating = 4.8, d_location = ''Downtown Clinic''\<rparr>"

definition sampleStore :: store where
  "sampleStore = \<lparr>doctors = [sampleDoctor], appointments = [sampleAppointment]\<rparr>"


definition sampleRequest ::
  "string \<Rightarrow> isoString option \<Rightarrow> isoString option \<Rightarrow> appointmentCreate" where
  "sampleRequest ident s e =
     \<lparr>c_doctorId = ident, c_doctorName = ''Dr. Sarah Johnson'', c_ownerName = ''Jane Doe'',
      c_petName = ''Rex'', c_disease = None, c_startDateISO = s, c_endDateISO = e,
      c_location = Some ''Downtown Clinic'', c_notes = None\<rparr>"

definition cancelledSample :: appointment where
  "cancelledSample =
     sampleAppointment\<lparr>status := Cancelled,
                       apt_notes := Some ''Cancellation reason: Cancelled by owner'',
                       updatedAt := Some 1793606400000\<rparr>"




declare findFirst.simps [simp del]
declare weeklyLoop.simps [simp del]

section \<open>Calendar arithmetic\<close>

lemma getDay_range: "0 \<le> getDay t \<and> getDay t < 7"
  by (simp add: getDay_def)

lemma getDay_addDays: "getDay (addDays t n) = (getDay t + n) mod 7"
proof -
  have "(t + n * msPerDay) div msPerDay = t div msPerDay + n"
    by (simp add: msPerDay_def)
  then show ?thesis
    by (simp add: getDay_def addDays_def mod_simps algebra_simps)
qed

lemma getDay_week: "getDay (addDays t 7) = getDay t"
  using getDay_range[of t] by (simp add: getDay_addDays)

lemma addDays_add: "addDays (addDays t m) n = addDays t (m + n)"
  by (simp add: addDays_def algebra_simps)

lemma findFirst_ge: "current \<le> findFirst wd toDate current"
proof (induction wd toDate current rule: findFirst.induct)
  case (1 wd toDate current)
  show ?case
  proof (cases "getDay current \<noteq> wd \<and> current \<le> toDate")
    case True
    then have "addDays current 1 \<le> findFirst wd toDate current"
      using 1 by (simp add: findFirst.simps[of wd toDate current])
    then show ?thesis by (simp add: addDays_def msPerDay_def)
  next
    case False
    then show ?thesis by (auto simp: findFirst.simps[of wd toDate current])
  qed
qed

lemma findFirst_stop:
  "findFirst wd toDate current > toDate \<or> getDay (findFirst wd toDate current) = wd"
proof (induction wd toDate current rule: findFirst.induct)
  case (1 wd toDate current)
  then show ?case
    by (cases "getDay current \<noteq> wd \<and> current \<le> toDate")
       (auto simp: findFirst.simps[of wd toDate current])
qed

lemma findFirst_exact:
  assumes "k = nat ((wd - getDay current) mod 7)" "0 \<le> wd" "wd < 7"
  shows "(addDays current (int k) \<le> toDate \<longrightarrow> findFirst wd toDate current = addDays current (int k))
       \<and> (toDate < addDays current (int k) \<longrightarrow> toDate < findFirst wd toDate current)"
  using assms
proof (induction k arbitrary: current)
  case 0
  have "getDay current = wd"
    using 0 getDay_range[of current] by (simp add: mod_eq_0_iff_dvd) presburger
  then show ?case by (simp add: addDays_def findFirst.simps[of wd toDate current])
next
  case (Suc k)
  have ne: "getDay current \<noteq> wd" using Suc.prems by auto
  have a: "(wd - getDay current) mod 7 = int k + 1"
    using Suc.prems(1) by linarith
  have "(wd - (getDay current + 1) mod 7) mod 7 = (wd - (getDay current + 1)) mod 7"
    by (rule mod_diff_right_eq)
  then have b: "(wd - (getDay current + 1) mod 7) mod 7 = (wd - getDay current - 1) mod 7"
    by (simp only: diff_diff_eq)
  have lt: "int k + 1 < 7"
    using a pos_mod_bound[of 7 "wd - getDay current"] by linarith
  have "(wd - getDay current - 1) mod 7 = ((wd - getDay current) mod 7 - 1) mod 7"
    by (simp only: mod_diff_left_eq)
  also have "\<dots> = int k mod 7" by (simp only: a add_diff_cancel_right')
  also have "\<dots> = int k" using lt by simp
  finally have c: "(wd - getDay current - 1) mod 7 = int k" .
  have k': "k = nat ((wd - getDay (addDays current 1)) mod 7)"
    unfolding getDay_addDays b c by simp
  note IH = Suc.IH[OF k' Suc.prems(2,3)]
  show ?case
  proof (cases "current \<le> toDate")
    case True
    then have "findFirst wd toDate current = findFirst wd toDate (addDays current 1)"
      using ne by (simp add: findFirst.simps[of wd toDate current])
    then show ?thesis using IH by (simp add: addDays_add algebra_simps)
  next
    case False
    then have "findFirst wd toDate current = current"
      by (simp add: findFirst.simps[of wd toDate current])
    then show ?thesis using False by (simp add: addDays_def msPerDay_def)
  qed
qed

lemma findFirst_invalid:
  assumes "wd < 0 \<or> 7 \<le> wd"
  shows "toDate < findFirst wd toDate current"
proof -
  have "getDay (findFirst wd toDate current) \<noteq> wd"
    using getDay_range[of "findFirst wd toDate current"] assms by auto
  then show ?thesis using findFirst_stop[of toDate wd current] by auto
qed

lemma weeklyLoop_Nil: "toDate < current \<Longrightarrow> weeklyLoop toDate current = []"
  by (simp add: weeklyLoop.simps[of toDate current])

lemma weeklyLoop_eq:
  "weeklyLoop toDate current =
     map (\<lambda>i. addDays current (7 * int i)) [0..<nat ((toDate - current) div (7 * msPerDay) + 1)]"
proof (induction toDate current rule: weeklyLoop.induct)
  case (1 toDate current)
  show ?case
  proof (cases "current \<le> toDate")
    case False
    then have "(toDate - current) div (7 * msPerDay) < 0"
      by (simp add: msPerDay_def div_neg_pos_less0)
    then show ?thesis using False by (simp add: weeklyLoop.simps[of toDate current])
  next
    case True
    have d: "(toDate - addDays current 7) div (7 * msPerDay) + 1 = (toDate - current) div (7 * msPerDay)"
    proof -
      have "(toDate - addDays current 7 + 7 * msPerDay) div (7 * msPerDay)
            = (toDate - addDays current 7) div (7 * msPerDay) + 1"
        by (rule div_add_self2) (simp add: msPerDay_def)
      then show ?thesis by (simp add: addDays_def algebra_simps)
    qed
    have nn: "0 \<le> (toDate - current) div (7 * msPerDay)"
      using True by (simp add: msPerDay_def pos_imp_zdiv_nonneg_iff)
    have n: "nat ((toDate - current) div (7 * msPerDay) + 1)
             = Suc (nat ((toDate - current) div (7 * msPerDay)))"
      using nn by simp
    have "weeklyLoop toDate current = current # weeklyLoop toDate (addDays current 7)"
      using True by (simp add: weeklyLoop.simps[of toDate current])
    also have "\<dots> = current # map (\<lambda>i. addDays (addDays current 7) (7 * int i))
                          [0..<nat ((toDate - current) div (7 * msPerDay))]"
      using 1[OF True] d by simp
    also have "\<dots> = map (\<lambda>i. addDays current (7 * int i))
                      [0..<Suc (nat ((toDate - current) div (7 * msPerDay)))]"
      by (simp add: upt_rec[of 0] map_Suc_upt[symmetric] addDays_add addDays_def
               algebra_simps del: upt_Suc)
    finally show ?thesis using n by simp
  qed
qed

section \<open>The slicing loop\<close>

lemma slotsLoop_pos:
  "0 < step \<Longrightarrow>
   slotsLoop e step c acc =
     Some (acc @ map (\<lambda>k. (c + int k * step, c + (int k + 1) * step))
                   [0..<nat ((e - c) div step)])"
proof (induction "nat (e - c)" arbitrary: c acc rule: less_induct)
  case less
  show ?case
  proof (cases "c < e")
    case False
    then have "(e - c) div step \<le> 0" using less.prems
      by (simp add: div_nonpos_pos_le0)
    then show ?thesis using False by (subst slotsLoop.simps) simp
  next
    case True
    have m: "nat (e - (c + step)) < nat (e - c)" using True less.prems by simp
    show ?thesis
    proof (cases "c + step \<le> e")
      case fits: True
      have d: "(e - c) div step = (e - (c + step)) div step + 1"
      proof -
        have ne: "step \<noteq> 0" using less.prems by simp
        have "(e - (c + step) + step) div step = (e - (c + step)) div step + 1"
          by (rule div_add_self2[OF ne])
        then show ?thesis by (simp add: algebra_simps)
      qed
      have nn: "0 \<le> (e - (c + step)) div step" using fits less.prems
        by (simp add: pos_imp_zdiv_nonneg_iff)
      have n: "nat ((e - c) div step) = Suc (nat ((e - (c + step)) div step))"
        using d nn by simp
      show ?thesis
        apply (subst slotsLoop.simps)
        using True fits
        apply (simp add: less.hyps[OF m less.prems] n upt_rec[of 0] map_Suc_upt[symmetric] del: upt_Suc)
        apply (simp add: algebra_simps)
        done
    next
      case nofit: False
      have z: "(e - c) div step = 0" using True nofit less.prems
        by (simp add: div_pos_pos_trivial)
      have z2: "(e - (c + step)) div step \<le> 0" using nofit less.prems
        by (simp add: div_nonpos_pos_le0)
      show ?thesis
        apply (subst slotsLoop.simps)
        using True nofit z z2
        apply (simp add: less.hyps[OF m less.prems])
        done
    qed
  qed
qed


lemma slotsLoop_returns:
  assumes "slotsLoop e step c acc = Some r"
  shows "step \<le> 0 \<longrightarrow> e \<le> c"
proof (rule slotsLoop.raw_induct[where P = "\<lambda>e step c acc r. step \<le> 0 \<longrightarrow> e \<le> c", OF _ assms])
  fix f :: "int \<Rightarrow> int \<Rightarrow> int \<Rightarrow> (int \<times> int) list \<Rightarrow> (int \<times> int) list option"
  fix e step c acc r
  assume IH: "\<And>e step c acc r. f e step c acc = Some r \<Longrightarrow> step \<le> 0 \<longrightarrow> e \<le> c"
    and eq: "(if c < e
              then f e step (c + step)
                     (if c + step \<le> e then acc @ [(c, c + step)] else acc)
              else Some acc) = Some r"
  show "step \<le> 0 \<longrightarrow> e \<le> c"
  proof (cases "c < e")
    case True
    then have "f e step (c + step)
                 (if c + step \<le> e then acc @ [(c, c + step)] else acc) = Some r"
      using eq by simp
    then have "step \<le> 0 \<longrightarrow> e \<le> c + step" by (rule IH)
    then show ?thesis by auto
  next
    case False
    then show ?thesis by simp
  qed
qed

lemma slotsLoop_diverges: "step \<le> 0 \<Longrightarrow> c < e \<Longrightarrow> slotsLoop e step c acc = None"
  using slotsLoop_returns[of e step c acc] by (cases "slotsLoop e step c acc") auto


lemma generateSlotsForBlock_pos:
  "0 < d \<Longrightarrow>
   generateSlotsForBlock s e d =
     Some (map (\<lambda>k. (s + int k * (d * 60000), s + (int k + 1) * (d * 60000)))
             [0..<nat ((e - s) div (d * 60000))])"
  using slotsLoop_pos[of "d * 60 * 1000" e s "[]"]
  by (simp add: generateSlotsForBlock_def mult.commute[of d])

lemma generateSlotsForBlock_degenerate:
  "e \<le> s \<Longrightarrow> generateSlotsForBlock s e d = Some []"
  by (simp add: generateSlotsForBlock_def slotsLoop.simps[of e _ s])

section \<open>Claims\<close>

text \<open>
  C4. For every block start \<open>s\<close>, block end \<open>e\<close> and slot duration \<open>d > 0\<close> (minutes),
  \<^verbatim>\<open>generateSlotsForBlock\<close> returns, and its slots are stepped by \<open>d\<close> from the block
  start: the \<open>k\<close>-th slot starts at \<open>s + k * d\<close> minutes and is exactly \<open>d\<close> minutes
  long, every slot lies inside the block, each slot starts where the previous one ends, and
  there are as many slots as whole durations fit, so that a trailing remainder is not
  emitted. A block with \<open>e \<le> s\<close> yields the empty sequence.
\<close>

theorem slot_slicer:
  "(e \<le> s \<longrightarrow> generateSlotsForBlock s e d = Some [])
   \<and> (0 < d \<longrightarrow>
        (\<exists>slots. generateSlotsForBlock s e d = Some slots
           \<and> slots = map (\<lambda>k. (s + int k * (d * 60000), s + int k * (d * 60000) + d * 60000))
                        [0..<length slots]
           \<and> length slots = nat ((e - s) div (d * 60000))
           \<and> (\<forall>slot \<in> set slots. snd slot - fst slot = d * 60000
                                    \<and> s \<le> fst slot \<and> snd slot \<le> e)
           \<and> (\<forall>i. Suc i < length slots \<longrightarrow> fst (slots ! Suc i) = snd (slots ! i))
           \<and> (\<forall>i j. i < j \<and> j < length slots \<longrightarrow> snd (slots ! i) \<le> fst (slots ! j))))"
proof (intro conjI impI)
  assume "e \<le> s"
  then show "generateSlotsForBlock s e d = Some []"
    by (rule generateSlotsForBlock_degenerate)
next
  assume d: "0 < d"
  define D where "D = d * 60000"
  define n where "n = nat ((e - s) div D)"
  define slots where "slots = map (\<lambda>k. (s + int k * D, s + (int k + 1) * D)) [0..<n]"
  have D: "0 < D" using d by (simp add: D_def)
  have gen: "generateSlotsForBlock s e d = Some slots"
    using generateSlotsForBlock_pos[OF d] by (simp add: slots_def n_def D_def)
  have len: "length slots = n" by (simp add: slots_def)
  have shape: "slots = map (\<lambda>k. (s + int k * D, s + int k * D + D)) [0..<length slots]"
    by (simp add: slots_def algebra_simps)
  have bound: "s + (int k + 1) * D \<le> e" if "k < n" for k
  proof -
    have "int k + 1 \<le> (e - s) div D" using that by (simp add: n_def)
    then have "(int k + 1) * D \<le> ((e - s) div D) * D"
      using D by (simp add: mult_right_mono)
    also have "\<dots> \<le> e - s"
    proof -
      have "(e - s) div D * D + (e - s) mod D = e - s" by (rule div_mult_mod_eq)
      moreover have "0 \<le> (e - s) mod D" using D by simp
      ultimately show ?thesis by linarith
    qed
    finally show ?thesis by simp
  qed
  have each: "\<forall>slot \<in> set slots. snd slot - fst slot = D \<and> s \<le> fst slot \<and> snd slot \<le> e"
  proof
    fix slot assume "slot \<in> set slots"
    then obtain k where k: "k < n" "slot = (s + int k * D, s + (int k + 1) * D)"
      by (auto simp: slots_def)
    have "0 \<le> int k * D" using D by simp
    then show "snd slot - fst slot = D \<and> s \<le> fst slot \<and> snd slot \<le> e"
      using k bound[OF k(1)] by (simp add: algebra_simps)
  qed
  have contiguous: "\<forall>i. Suc i < length slots \<longrightarrow> fst (slots ! Suc i) = snd (slots ! i)"
    by (simp add: slots_def algebra_simps)
  have ordered: "\<forall>i j. i < j \<and> j < length slots \<longrightarrow> snd (slots ! i) \<le> fst (slots ! j)"
  proof (intro allI impI)
    fix i j assume ij: "i < j \<and> j < length slots"
    then have "int i + 1 \<le> int j" by simp
    then have "(int i + 1) * D \<le> int j * D" using D by (simp only: mult_right_mono)
    then show "snd (slots ! i) \<le> fst (slots ! j)"
      using ij by (simp add: slots_def)
  qed
  show "\<exists>slots. generateSlotsForBlock s e d = Some slots
           \<and> slots = map (\<lambda>k. (s + int k * (d * 60000), s + int k * (d * 60000) + d * 60000))
                        [0..<length slots]
           \<and> length slots = nat ((e - s) div (d * 60000))
           \<and> (\<forall>slot \<in> set slots. snd slot - fst slot = d * 60000
                                    \<and> s \<le> fst slot \<and> snd slot \<le> e)
           \<and> (\<forall>i. Suc i < length slots \<longrightarrow> fst (slots ! Suc i) = snd (slots ! i))
           \<and> (\<forall>i j. i < j \<and> j < length slots \<longrightarrow> snd (slots ! i) \<le> fst (slots ! j))"
    using gen shape len each contiguous ordered
    unfolding D_def[symmetric] n_def[symmetric] by blast
qed

theorem slot_slicer_witness:
  "generateSlotsForBlock 32400000 39900000 30 =
     Some [(32400000, 34200000), (34200000, 36000000), (36000000, 37800000),
           (37800000, 39600000)]
   \<and> generateSlotsForBlock 39900000 32400000 30 = Some []"
proof -
  have pos: "(0::int) < 30" by simp
  from slot_slicer[of 39900000 32400000 30] pos
  obtain slots where
    s: "generateSlotsForBlock 32400000 39900000 30 = Some slots"
       "slots = map (\<lambda>k. (32400000 + int k * (30 * 60000), 32400000 + int k * (30 * 60000) + 30 * 60000))
                  [0..<length slots]"
       "length slots = nat ((39900000 - 32400000) div (30 * 60000))"
    by blast
  have "length slots = 4" using s(3) by simp
  then have "slots = [(32400000, 34200000), (34200000, 36000000), (36000000, 37800000),
           (37800000, 39600000)]"
    using s(2) by (simp add: upt_rec[of _ 4] upt_rec[of _ "Suc _"] numeral_eq_Suc)
  moreover have "generateSlotsForBlock 39900000 32400000 30 = Some []"
    using slot_slicer[of 32400000 39900000 30] by simp
  ultimately show ?thesis using s(1) by simp
qed

lemma weeklyLoop_set:
  "d \<in> set (weeklyLoop toDate current) \<Longrightarrow>
     current \<le> d \<and> d \<le> toDate \<and> getDay d = getDay current"
proof (induction toDate current rule: weeklyLoop.induct)
  case (1 toDate current)
  show ?case
  proof (cases "current \<le> toDate")
    case False
    then show ?thesis using 1(2) by (simp add: weeklyLoop.simps[of toDate current])
  next
    case True
    then have "d = current \<or> d \<in> set (weeklyLoop toDate (addDays current 7))"
      using 1(2) by (simp add: weeklyLoop.simps[of toDate current])
    then show ?thesis
    proof
      assume "d = current"
      then show ?thesis using True by simp
    next
      assume "d \<in> set (weeklyLoop toDate (addDays current 7))"
      then have "addDays current 7 \<le> d \<and> d \<le> toDate \<and> getDay d = getDay (addDays current 7)"
        using 1(1)[OF True] by simp
      then show ?thesis by (simp add: getDay_week) (simp add: addDays_def msPerDay_def)
    qed
  qed
qed

lemma weeklyLoop_step:
  "Suc i < length (weeklyLoop toDate current) \<Longrightarrow>
     weeklyLoop toDate current ! Suc i = addDays (weeklyLoop toDate current ! i) 7"
  by (simp add: weeklyLoop_eq[of toDate current] addDays_add algebra_simps)

lemma expand_no_rrule:
  "rrule a = None \<or> rrule a = Some [] \<Longrightarrow>
     expandAvailabilityToDates rr a fromDate toDate =
       weeklyLoop toDate (findFirst (weekday a) toDate fromDate)"
  by (auto simp: expandAvailabilityToDates_def expandWeekly_def)

lemma first_weekday:
  assumes "0 \<le> wd" "wd < 7"
  shows "getDay (addDays t ((wd - getDay t) mod 7)) = wd"
proof -
  have "(getDay t + (wd - getDay t) mod 7) mod 7 = (getDay t + (wd - getDay t)) mod 7"
    by (rule mod_add_right_eq)
  then show ?thesis using assms by (simp add: getDay_addDays)
qed

lemma first_weekday_least:
  assumes "0 \<le> j" "j < (wd - getDay t) mod 7"
  shows "getDay (addDays t j) \<noteq> wd"
proof
  assume eq: "getDay (addDays t j) = wd"
  have j7: "j < 7" using assms(2) pos_mod_bound[of 7 "wd - getDay t"] by linarith
  have "(wd - getDay t) mod 7 = ((getDay t + j) mod 7 - getDay t) mod 7"
    using eq by (simp add: getDay_addDays)
  also have "\<dots> = (getDay t + j - getDay t) mod 7"
    by (rule mod_diff_left_eq)
  also have "\<dots> = j" using assms(1) j7 by simp
  finally show False using assms(2) by simp
qed


text \<open>
  C5. For a rule without recurrence descriptor (absent or empty) and a window
  \<open>[fromDate, toDate]\<close>, \<^verbatim>\<open>expandAvailabilityToDates\<close> scans day by day from \<open>fromDate\<close>,
  inside the window, to the first date with the rule's weekday and takes that date and
  every 7th day after it while not after \<open>toDate\<close>. For a weekday in 0..6 the first date
  is \<open>(weekday - getDay fromDate) mod 7\<close> days after \<open>fromDate\<close> and no earlier day of the
  scan has that weekday; for any other weekday nothing is emitted. Every emitted date has
  the rule's weekday and lies in the window, and consecutive emitted dates are exactly 7
  days apart.
\<close>

theorem recurrence_expander:
  assumes nr: "rrule a = None \<or> rrule a = Some []"
    and ds: "ds = expandAvailabilityToDates rr a fromDate toDate"
    and first: "first = addDays fromDate ((weekday a - getDay fromDate) mod 7)"
  shows "ds = weeklyLoop toDate (findFirst (weekday a) toDate fromDate)
    \<and> (0 \<le> weekday a \<and> weekday a < 7 \<longrightarrow>
           ds = map (\<lambda>i. addDays first (7 * int i))
                  [0..<nat ((toDate - first) div (7 * msPerDay) + 1)]
           \<and> getDay first = weekday a
           \<and> (\<forall>j. 0 \<le> j \<and> j < (weekday a - getDay fromDate) mod 7
                  \<longrightarrow> getDay (addDays fromDate j) \<noteq> weekday a))
    \<and> (weekday a < 0 \<or> 7 \<le> weekday a \<longrightarrow> ds = [])
    \<and> (\<forall>d \<in> set ds. getDay d = weekday a \<and> fromDate \<le> d \<and> d \<le> toDate)
    \<and> (\<forall>i. Suc i < length ds \<longrightarrow> ds ! Suc i = addDays (ds ! i) 7)"
proof -
  let ?c = "findFirst (weekday a) toDate fromDate"
  have scan: "ds = weeklyLoop toDate ?c"
    using expand_no_rrule[OF nr] ds by simp
  have valid: "0 \<le> weekday a \<and> weekday a < 7 \<longrightarrow>
           ds = map (\<lambda>i. addDays first (7 * int i))
                  [0..<nat ((toDate - first) div (7 * msPerDay) + 1)]
           \<and> getDay first = weekday a
           \<and> (\<forall>j. 0 \<le> j \<and> j < (weekday a - getDay fromDate) mod 7
                  \<longrightarrow> getDay (addDays fromDate j) \<noteq> weekday a)"
  proof (intro impI conjI allI)
    assume v: "0 \<le> weekday a \<and> weekday a < 7"
    define k where "k = nat ((weekday a - getDay fromDate) mod 7)"
    have ik: "int k = (weekday a - getDay fromDate) mod 7" by (simp add: k_def)
    have fk: "first = addDays fromDate (int k)" using first ik by simp
    note ex = findFirst_exact[OF k_def, of toDate]
    have "weeklyLoop toDate ?c = weeklyLoop toDate first"
    proof (cases "first \<le> toDate")
      case True
      then show ?thesis using ex v fk by simp
    next
      case False
      then have "toDate < ?c" using ex v fk by simp
      then show ?thesis using False by (simp add: weeklyLoop_Nil)
    qed
    then show "ds = map (\<lambda>i. addDays first (7 * int i))
                  [0..<nat ((toDate - first) div (7 * msPerDay) + 1)]"
      using scan weeklyLoop_eq[of toDate first] by simp
    show "getDay first = weekday a"
      using first first_weekday[of "weekday a" fromDate] v by simp
  next
    fix j
    assume "0 \<le> j \<and> j < (weekday a - getDay fromDate) mod 7"
    then show "getDay (addDays fromDate j) \<noteq> weekday a"
      using first_weekday_least[of j "weekday a" fromDate] by simp
  qed
  have invalid: "weekday a < 0 \<or> 7 \<le> weekday a \<longrightarrow> ds = []"
    using scan findFirst_invalid[of "weekday a" toDate fromDate]
    by (auto simp: weeklyLoop_Nil)
  have within: "\<forall>d \<in> set ds. getDay d = weekday a \<and> fromDate \<le> d \<and> d \<le> toDate"
  proof
    fix d assume "d \<in> set ds"
    then have m: "?c \<le> d \<and> d \<le> toDate \<and> getDay d = getDay ?c"
      using scan weeklyLoop_set by simp
    then have "getDay ?c = weekday a"
      using findFirst_stop[of toDate "weekday a" fromDate] by auto
    then show "getDay d = weekday a \<and> fromDate \<le> d \<and> d \<le> toDate"
      using m findFirst_ge[of fromDate "weekday a" toDate] by simp
  qed
  have apart: "\<forall>i. Suc i < length ds \<longrightarrow> ds ! Suc i = addDays (ds ! i) 7"
    using scan weeklyLoop_step by simp
  show ?thesis using scan valid invalid within apart by blast
qed

theorem recurrence_expander_witness:
  "rrule mondayMorning = None
   \<and> expandAvailabilityToDates noRRule mondayMorning 1793529000000 1794911400000
       = [1793615400000, 1794220200000, 1794825000000]
   \<and> list_all (\<lambda>d. getDay d = 1 \<and> 1793529000000 \<le> d \<and> d \<le> 1794911400000)
        (expandAvailabilityToDates noRRule mondayMorning 1793529000000 1794911400000)
   \<and> expandAvailabilityToDates noRRule (mondayMorning\<lparr>weekday := 7\<rparr>)
        1793529000000 1794911400000 = []"
proof -
  have nr7: "rrule (mondayMorning\<lparr>weekday := 7\<rparr>) = None
             \<or> rrule (mondayMorning\<lparr>weekday := 7\<rparr>) = Some []"
    by (simp add: mondayMorning_def)
  have w7: "weekday (mondayMorning\<lparr>weekday := 7\<rparr>) < 0
            \<or> 7 \<le> weekday (mondayMorning\<lparr>weekday := 7\<rparr>)"
    by simp
  note none = recurrence_expander[OF nr7 refl refl, of noRRule 1793529000000 1794911400000,
                THEN conjunct2, THEN conjunct2, THEN conjunct1, rule_format, OF w7]
  have nr: "rrule mondayMorning = None \<or> rrule mondayMorning = Some []"
    by (simp add: mondayMorning_def)
  have wd: "weekday mondayMorning = 1" by (simp add: mondayMorning_def)
  have v: "0 \<le> weekday mondayMorning \<and> weekday mondayMorning < 7" by (simp add: wd)
  note t = recurrence_expander[OF nr refl refl, of noRRule 1793529000000 1794911400000]
  note e = t[THEN conjunct2, THEN conjunct1, rule_format, OF v, THEN conjunct1]
  note w = t[THEN conjunct2, THEN conjunct2, THEN conjunct2, THEN conjunct1]
  have "map (\<lambda>i. addDays (addDays 1793529000000
                            ((weekday mondayMorning - getDay 1793529000000) mod 7)) (7 * int i))
          [0..<nat ((1794911400000 - addDays 1793529000000
                       ((weekday mondayMorning - getDay 1793529000000) mod 7))
                     div (7 * msPerDay) + 1)]
        = [1793615400000, 1794220200000, 1794825000000]"
    by (simp add: wd getDay_def addDays_def msPerDay_def upt_rec[of _ "numeral _"])
  with e have "expandAvailabilityToDates noRRule mondayMorning 1793529000000 1794911400000
       = [1793615400000, 1794220200000, 1794825000000]"
    by (rule trans)
  moreover have "rrule mondayMorning = None" by (simp add: mondayMorning_def)
  ultimately show ?thesis using w none by (simp only: wd simp_thms list_all_iff)
qed

lemma hasConflict_iff:
  "hasConflict slot apts \<longleftrightarrow>
     (\<exists>a \<in> set apts. status a \<noteq> Cancelled
        \<and> specOverlap (startISO slot) (endISO slot) (startDateISO a) (endDateISO a))"
  by (auto simp: hasConflict_def list_ex_iff specOverlap_def)


text \<open>
  C3. For every candidate slot \<open>[s1, e1)\<close> and every list of appointments,
  \<^verbatim>\<open>filterBookedSlots\<close> removes the candidate if and only if some appointment
  \<open>[s2, e2)\<close> of the list is not cancelled and \<open>s2 \<le> s1 < e2\<close>, or \<open>s2 < e1 \<le> e2\<close>, or
  \<open>s1 \<le> s2\<close> and \<open>e1 \<ge> e2\<close>; the remaining candidates keep their order, and a list of
  cancelled appointments removes nothing.
\<close>

theorem conflict_filter:
  "filterBookedSlots allSlots apts =
     filter (\<lambda>slot. \<not> (\<exists>a \<in> set apts. status a \<noteq> Cancelled
               \<and> specOverlap (startISO slot) (endISO slot) (startDateISO a) (endDateISO a)))
       allSlots
   \<and> (slot \<in> set allSlots \<and> slot \<notin> set (filterBookedSlots allSlots apts)
        \<longleftrightarrow> slot \<in> set allSlots
            \<and> (\<exists>a \<in> set apts. status a \<noteq> Cancelled
                 \<and> ((startDateISO a \<le> startISO slot \<and> startISO slot < endDateISO a)
                    \<or> (startDateISO a < endISO slot \<and> endISO slot \<le> endDateISO a)
                    \<or> (startISO slot \<le> startDateISO a \<and> endISO slot \<ge> endDateISO a))))
   \<and> ((\<forall>a \<in> set apts. status a = Cancelled) \<longrightarrow> filterBookedSlots allSlots apts = allSlots)"
proof (intro conjI)
  show "filterBookedSlots allSlots apts =
     filter (\<lambda>slot. \<not> (\<exists>a \<in> set apts. status a \<noteq> Cancelled
               \<and> specOverlap (startISO slot) (endISO slot) (startDateISO a) (endDateISO a)))
       allSlots"
    by (simp add: filterBookedSlots_def hasConflict_iff)
  show "slot \<in> set allSlots \<and> slot \<notin> set (filterBookedSlots allSlots apts)
        \<longleftrightarrow> slot \<in> set allSlots
            \<and> (\<exists>a \<in> set apts. status a \<noteq> Cancelled
                 \<and> ((startDateISO a \<le> startISO slot \<and> startISO slot < endDateISO a)
                    \<or> (startDateISO a < endISO slot \<and> endISO slot \<le> endDateISO a)
                    \<or> (startISO slot \<le> startDateISO a \<and> endISO slot \<ge> endDateISO a)))"
    by (auto simp: filterBookedSlots_def hasConflict_iff specOverlap_def)
  show "(\<forall>a \<in> set apts. status a = Cancelled) \<longrightarrow> filterBookedSlots allSlots apts = allSlots"
    by (simp add: filterBookedSlots_def hasConflict_iff)
qed

theorem conflict_filter_witness:
  "filterBookedSlots [slotAt 1793610000000, slotAt 1793611800000]
     [sampleAppointment] = [slotAt 1793611800000]
   \<and> status (sampleAppointment\<lparr>status := Cancelled\<rparr>) = Cancelled
   \<and> filterBookedSlots [slotAt 1793610000000, slotAt 1793611800000]
        [sampleAppointment\<lparr>status := Cancelled\<rparr>]
      = [slotAt 1793610000000, slotAt 1793611800000]"
  using conflict_filter[of "[slotAt 1793610000000, slotAt 1793611800000]"
          "[sampleAppointment]" "slotAt 1793610000000"]
        conflict_filter[of "[slotAt 1793610000000, slotAt 1793611800000]"
          "[sampleAppointment\<lparr>status := Cancelled\<rparr>]" "slotAt 1793610000000"]
  by (simp add: specOverlap_def slotAt_def sampleAppointment_def)

lemma setHours_addDays:
  "setHours (addDays t n) h m s ms = addDays (setHours t h m s ms) n"
  by (simp add: setHours_def addDays_def)

lemma combineDateAndTime_addDays:
  "combineDateAndTime (addDays t n) tm = addDays (combineDateAndTime t tm) n"
  by (simp add: combineDateAndTime_def setHours_addDays split: prod.splits)

lemma combine_morning:
  "combineDateAndTime date (12, 0) = combineDateAndTime date (9, 0) + 10800000"
  by (simp add: combineDateAndTime_def setHours_def)

lemma collect_all:
  "\<forall>x \<in> set xs. f x = Some (g x) \<Longrightarrow> collect f xs = Some (concat (map g xs))"
  by (induction xs) auto

text \<open>The six half-hour slots of one morning block that starts at \<open>b\<close>.\<close>

lemma slotsForDate_morning:
  assumes "startTime a = (9, 0)" "endTime a = (12, 0)"
    and "now \<le> combineDateAndTime date (9, 0)"
  shows "slotsForDate doctor a 30 now date =
           Some (map (\<lambda>k. \<lparr>startISO = combineDateAndTime date (9, 0) + int k * 1800000,
                            endISO = combineDateAndTime date (9, 0) + (int k + 1) * 1800000,
                            ts_doctorId = d_id doctor\<rparr>) [0..<6])"
proof -
  let ?b = "combineDateAndTime date (9, 0)"
  have g: "generateSlotsForBlock ?b (?b + 10800000) 30 =
             Some (map (\<lambda>k. (?b + int k * 1800000, ?b + (int k + 1) * 1800000)) [0..<6])"
    using generateSlotsForBlock_pos[of 30 ?b "?b + 10800000"] by simp
  have keep: "filter (\<lambda>slot. \<not> fst slot < now)
                (map (\<lambda>k. (?b + int k * 1800000, ?b + (int k + 1) * 1800000)) [0..<6])
              = map (\<lambda>k. (?b + int k * 1800000, ?b + (int k + 1) * 1800000)) [0..<6]"
    using assms(3) by (intro filter_True) auto
  show ?thesis
    unfolding slotsForDate_def Let_def assms(1,2) combine_morning g
    using assms(3) by (simp only: option.case keep) (simp add: comp_def)
qed

lemma single_rule_morning:
  assumes "weeklyAvailability doctor = [a]" "startTime a = (9, 0)" "endTime a = (12, 0)"
    and "\<forall>date \<in> set (expandAvailabilityToDates rr a fromDate toDate).
           now \<le> combineDateAndTime date (9, 0)"
  shows "\<exists>slots. generateAllPossibleSlots rr doctor fromDate toDate 30 now = Some slots
           \<and> length slots = 6 * length (expandAvailabilityToDates rr a fromDate toDate)"
proof -
  let ?g = "\<lambda>date. map (\<lambda>k. \<lparr>startISO = combineDateAndTime date (9, 0) + int k * 1800000,
                            endISO = combineDateAndTime date (9, 0) + (int k + 1) * 1800000,
                            ts_doctorId = d_id doctor\<rparr>) [0..<6]"
  let ?ds = "expandAvailabilityToDates rr a fromDate toDate"
  have "\<forall>date \<in> set ?ds. slotsForDate doctor a 30 now date = Some (?g date)"
    using assms slotsForDate_morning by blast
  then have c: "collect (slotsForDate doctor a 30 now) ?ds = Some (concat (map ?g ?ds))"
    by (rule collect_all)
  have len: "length (concat (map ?g ?ds)) = 6 * length ?ds"
    by (induction ?ds) (simp_all add: length_concat comp_def sum_list_triv)
  show ?thesis
    using c len by (simp add: generateAllPossibleSlots_def assms(1))
qed

lemma expand_on_weekday:
  assumes "rrule a = None \<or> rrule a = Some []" "getDay fromDate = weekday a"
  shows "expandAvailabilityToDates rr a fromDate toDate =
           map (\<lambda>i. addDays fromDate (7 * int i))
             [0..<nat ((toDate - fromDate) div (7 * msPerDay) + 1)]"
proof -
  have "findFirst (weekday a) toDate fromDate = fromDate"
    using assms(2) by (simp add: findFirst.simps[of "weekday a" toDate fromDate])
  then show ?thesis
    using expand_no_rrule[OF assms(1), of rr fromDate toDate] weeklyLoop_eq[of toDate fromDate]
    by simp
qed

lemma weeks_three: "nat ((addDays fromDate 14 - fromDate) div (7 * msPerDay) + 1) = 3"
  by (simp add: addDays_def msPerDay_def)

lemma weeks_two:
  assumes "addDays fromDate 7 \<le> toDate" "toDate < addDays fromDate 14"
  shows "nat ((toDate - fromDate) div (7 * msPerDay) + 1) = 2"
proof -
  have "(toDate - fromDate) div 604800000 = 1"
    using assms by (simp add: addDays_def msPerDay_def) 
  then show ?thesis by (simp add: msPerDay_def)
qed



text \<open>
  C9. A provider with the single rule Monday 09:00 to 12:00 without recurrence descriptor,
  slot duration 30 minutes, a window that starts on a Monday, and a clock not after 09:00 of
  that Monday. When the window ends exactly 14 days after its start, the expander yields
  three Mondays, the last one being the end of the window, and the slicer 6 slots for each:
  18 candidates before conflict filtering. When the window ends at least 7 and less than 14
  days after its start, there are two Mondays and 12 candidates. The counterexample is the
  window from Monday 2026-11-09 through 2026-11-23.
\<close>

theorem monday_example:
  assumes "weeklyAvailability doctor = [a]"
    and "weekday a = 1" and "startTime a = (9, 0)" and "endTime a = (12, 0)"
    and "rrule a = None"
    and "getDay fromDate = 1"
    and "now \<le> combineDateAndTime fromDate (9, 0)"
  shows "(toDate = addDays fromDate 14 \<longrightarrow>
            expandAvailabilityToDates rr a fromDate toDate
              = [fromDate, addDays fromDate 7, addDays fromDate 14]
            \<and> (\<exists>slots. generateAllPossibleSlots rr doctor fromDate toDate 30 now = Some slots
                  \<and> length slots = 18))
       \<and> (addDays fromDate 7 \<le> toDate \<and> toDate < addDays fromDate 14 \<longrightarrow>
            expandAvailabilityToDates rr a fromDate toDate = [fromDate, addDays fromDate 7]
            \<and> (\<exists>slots. generateAllPossibleSlots rr doctor fromDate toDate 30 now = Some slots
                  \<and> length slots = 12))"
proof -
  have nr: "rrule a = None \<or> rrule a = Some []" using assms(5) by simp
  have wd: "getDay fromDate = weekday a" using assms(2,6) by simp
  note ex = expand_on_weekday[OF nr wd, of rr toDate]
  have later: "now \<le> combineDateAndTime (addDays fromDate (7 * int i)) (9, 0)" for i
    using assms(7) by (simp add: combineDateAndTime_addDays) (simp add: addDays_def msPerDay_def)
  have future: "\<forall>date \<in> set (expandAvailabilityToDates rr a fromDate toDate).
                  now \<le> combineDateAndTime date (9, 0)"
    unfolding ex using later by auto
  from single_rule_morning[OF assms(1,3,4) future]
  obtain slots where slots: "generateAllPossibleSlots rr doctor fromDate toDate 30 now = Some slots"
    "length slots = 6 * length (expandAvailabilityToDates rr a fromDate toDate)"
    by blast
  show ?thesis
  proof (intro conjI impI)
    assume t: "toDate = addDays fromDate 14"
    show e3: "expandAvailabilityToDates rr a fromDate toDate
              = [fromDate, addDays fromDate 7, addDays fromDate 14]"
      using expand_on_weekday[OF nr wd, of rr "addDays fromDate 14"]
      by (simp only: t weeks_three) (simp add: upt_rec[of _ "numeral _"] addDays_def)
    show "\<exists>slots. generateAllPossibleSlots rr doctor fromDate toDate 30 now = Some slots
                  \<and> length slots = 18"
      using slots e3 by simp
  next
    assume t: "addDays fromDate 7 \<le> toDate \<and> toDate < addDays fromDate 14"
    then have w: "nat ((toDate - fromDate) div (7 * msPerDay) + 1) = 2"
      using weeks_two by simp
    show e2: "expandAvailabilityToDates rr a fromDate toDate = [fromDate, addDays fromDate 7]"
      using ex by (simp only: w) (simp add: upt_rec[of _ "numeral _"] addDays_def)
    show "\<exists>slots. generateAllPossibleSlots rr doctor fromDate toDate 30 now = Some slots
                  \<and> length slots = 12"
      using slots e2 by simp
  qed
qed

theorem monday_example_counterexample:
  "length (expandAvailabilityToDates noRRule mondayMorning 1794182400000
             (addDays 1794182400000 14)) = 3
   \<and> map_option length
        (generateAllPossibleSlots noRRule sampleDoctor 1794182400000
           (addDays 1794182400000 14) 30 1793620000000) = Some 18
   \<and> map_option length
        (generateAllPossibleSlots noRRule sampleDoctor 1794182400000
           (addDays 1794182400000 14) 30 1793620000000) \<noteq> Some 12"
proof -
  have nr: "rrule mondayMorning = None \<or> rrule mondayMorning = Some []"
    by (simp add: mondayMorning_def)
  have wd: "getDay 1794182400000 = weekday mondayMorning"
    by (simp add: mondayMorning_def getDay_def msPerDay_def)
  note ex = expand_on_weekday[OF nr wd, of noRRule "addDays 1794182400000 14"]
  have l3: "length (expandAvailabilityToDates noRRule mondayMorning 1794182400000
             (addDays 1794182400000 14)) = 3"
    unfolding ex weeks_three by simp
  have later: "1793620000000 \<le> combineDateAndTime (addDays 1794182400000 (7 * int i)) (9, 0)" for i
    by (simp add: combineDateAndTime_def setHours_def addDays_def msPerDay_def)
  have future: "\<forall>date \<in> set (expandAvailabilityToDates noRRule mondayMorning 1794182400000
             (addDays 1794182400000 14)).
                  1793620000000 \<le> combineDateAndTime date (9, 0)"
    unfolding ex using later by auto
  have "\<exists>slots. generateAllPossibleSlots noRRule sampleDoctor 1794182400000
           (addDays 1794182400000 14) 30 1793620000000 = Some slots
           \<and> length slots = 6 * length (expandAvailabilityToDates noRRule mondayMorning
                 1794182400000 (addDays 1794182400000 14))"
    by (rule single_rule_morning[OF _ _ _ future])
       (simp_all add: sampleDoctor_def mondayMorning_def)
  then show ?thesis using l3 by auto
qed

theorem monday_example_witness:
  "weeklyAvailability sampleDoctor = [mondayMorning]
   \<and> getDay 1794182400000 = 1
   \<and> 1793620000000 \<le> combineDateAndTime 1794182400000 (9, 0)
   \<and> expandAvailabilityToDates noRRule mondayMorning 1794182400000 1795392000000
        = [1794182400000, 1794787200000, 1795392000000]
   \<and> (\<exists>slots. generateAllPossibleSlots noRRule sampleDoctor 1794182400000 1795392000000
                  30 1793620000000 = Some slots \<and> length slots = 18)
   \<and> expandAvailabilityToDates noRRule mondayMorning 1794182400000 1795305600000
        = [1794182400000, 1794787200000]
   \<and> (\<exists>slots. generateAllPossibleSlots noRRule sampleDoctor 1794182400000 1795305600000
                  30 1793620000000 = Some slots \<and> length slots = 12)"
proof -
  have a: "weeklyAvailability sampleDoctor = [mondayMorning]" by (simp add: sampleDoctor_def)
  have b: "weekday mondayMorning = 1" "startTime mondayMorning = (9, 0)"
    "endTime mondayMorning = (12, 0)" "rrule mondayMorning = None"
    by (simp_all add: mondayMorning_def)
  have c: "getDay 1794182400000 = 1" by (simp add: getDay_def msPerDay_def)
  have d: "1793620000000 \<le> combineDateAndTime 1794182400000 (9, 0)"
    by (simp add: combineDateAndTime_def setHours_def msPerDay_def)
  note t = monday_example[OF a b c d, of _ noRRule]
  have t14: "1795392000000 = addDays 1794182400000 14" by (simp add: addDays_def msPerDay_def)
  have t13: "addDays 1794182400000 7 \<le> 1795305600000 \<and> 1795305600000 < addDays 1794182400000 14"
    by (simp add: addDays_def msPerDay_def)
  note t1 = t[of 1795392000000, THEN conjunct1, rule_format, OF t14]
  note t2 = t[of 1795305600000, THEN conjunct2, rule_format, OF t13]
  have s: "addDays 1794182400000 7 = 1794787200000" "addDays 1794182400000 14 = 1795392000000"
    by (simp_all add: addDays_def msPerDay_def)
  show ?thesis using a c d t1 t2 unfolding s by blast
qed

lemma collect_Some_iff:
  "(\<exists>ys. collect f xs = Some ys) \<longleftrightarrow> (\<forall>x \<in> set xs. \<exists>zs. f x = Some zs)"
  by (induction xs) (auto split: option.splits)

lemma collect_set:
  "collect f xs = Some ys \<Longrightarrow>
     set ys = {y. \<exists>x \<in> set xs. \<exists>zs. f x = Some zs \<and> y \<in> set zs}"
proof (induction xs arbitrary: ys)
  case Nil
  then show ?case by simp
next
  case (Cons x xs)
  then obtain zs rest where z: "f x = Some zs" "collect f xs = Some rest" "ys = zs @ rest"
    by (auto split: option.splits)
  show ?case using Cons.IH[OF z(2)] z by auto
qed

lemma generateSlotsForBlock_nonpos:
  assumes "generateSlotsForBlock s e d = Some bs" "d \<le> 0"
  shows "bs = []"
proof -
  have r: "slotsLoop e (d * 60 * 1000) s [] = Some bs"
    using assms(1) by (simp add: generateSlotsForBlock_def)
  have "e \<le> s" using slotsLoop_returns[OF r] assms(2) by simp
  then show ?thesis using r by (simp add: slotsLoop.simps[of e _ s])
qed

lemma generateSlotsForBlock_member:
  assumes "generateSlotsForBlock s e d = Some bs" "slot \<in> set bs"
  shows "fst slot < snd slot \<and> snd slot \<le> e"
proof (cases "0 < d")
  case True
  have "fst (k, v) = k" for k v :: int by simp
  from generateSlotsForBlock_pos[OF True, of s e] assms
  obtain k where "k < nat ((e - s) div (d * 60000))"
    "slot = (s + int k * (d * 60000), s + (int k + 1) * (d * 60000))"
    by auto
  moreover have "s + (int k + 1) * (d * 60000) \<le> e"
  proof -
    have D: "0 < d * 60000" using True by simp
    have "int k + 1 \<le> (e - s) div (d * 60000)" using calculation(1) by simp
    then have "(int k + 1) * (d * 60000) \<le> ((e - s) div (d * 60000)) * (d * 60000)"
      using D by (simp only: mult_right_mono)
    moreover have "(e - s) div (d * 60000) * (d * 60000) + (e - s) mod (d * 60000) = e - s"
      by (rule div_mult_mod_eq)
    moreover have "0 \<le> (e - s) mod (d * 60000)" using D by simp
    ultimately show ?thesis by linarith
  qed
  ultimately show ?thesis using True by (simp add: algebra_simps)
next
  case False
  then show ?thesis using generateSlotsForBlock_nonpos[OF assms(1)] assms(2) by simp
qed

lemma slotsForDate_returns:
  "0 < d \<Longrightarrow> \<exists>zs. slotsForDate doctor a d now date = Some zs"
  by (simp add: slotsForDate_def Let_def generateSlotsForBlock_pos)

lemma slotsForDate_future:
  "slotsForDate doctor a d now date = Some zs \<Longrightarrow> slot \<in> set zs \<Longrightarrow> now \<le> startISO slot"
  by (auto simp: slotsForDate_def Let_def split: if_splits option.splits)

lemma slotsForDate_keeps:
  assumes "slotsForDate doctor a d now date = Some zs"
    and "generateSlotsForBlock (combineDateAndTime date (startTime a))
           (combineDateAndTime date (endTime a)) d = Some bs"
    and "b \<in> set bs" and "now \<le> fst b"
  shows "\<lparr>startISO = fst b, endISO = snd b, ts_doctorId = d_id doctor\<rparr> \<in> set zs"
proof -
  have "\<not> combineDateAndTime date (endTime a) < now"
    using generateSlotsForBlock_member[OF assms(2,3)] assms(4) by simp
  then have "zs = map (\<lambda>slot. \<lparr>startISO = fst slot, endISO = snd slot,
                                ts_doctorId = d_id doctor\<rparr>)
                    (filter (\<lambda>slot. \<not> fst slot < now) bs)"
    using assms(1,2) by (simp add: slotsForDate_def Let_def)
  then show ?thesis using assms(3,4) by auto
qed

lemma generateAllPossibleSlots_returns:
  "0 < d \<Longrightarrow> \<exists>allSlots. generateAllPossibleSlots rr doctor fromDate toDate d now = Some allSlots"
  unfolding generateAllPossibleSlots_def collect_Some_iff
  using slotsForDate_returns by blast

lemma generateAllPossibleSlots_set:
  assumes "generateAllPossibleSlots rr doctor fromDate toDate d now = Some allSlots"
  shows "set allSlots =
           {slot. \<exists>a \<in> set (weeklyAvailability doctor).
                    \<exists>date \<in> set (expandAvailabilityToDates rr a fromDate toDate).
                      \<exists>zs. slotsForDate doctor a d now date = Some zs \<and> slot \<in> set zs}"
proof -
  let ?inner = "\<lambda>a. collect (slotsForDate doctor a d now)
                      (expandAvailabilityToDates rr a fromDate toDate)"
  have "set allSlots = {slot. \<exists>a \<in> set (weeklyAvailability doctor).
                                \<exists>ys. ?inner a = Some ys \<and> slot \<in> set ys}"
    using collect_set[of ?inner "weeklyAvailability doctor" allSlots] assms
    by (simp add: generateAllPossibleSlots_def)
  moreover have "\<exists>ys. ?inner a = Some ys" if "a \<in> set (weeklyAvailability doctor)" for a
    using assms that collect_Some_iff[of ?inner "weeklyAvailability doctor"]
    by (auto simp: generateAllPossibleSlots_def)
  ultimately show ?thesis
    using collect_set[of "slotsForDate doctor _ d now"] by (auto; blast)
qed



text \<open>
  C6. For every provider, window and slot duration, a list returned by
  \<^verbatim>\<open>GetAvailableSlotsUseCase.execute\<close> holds no slot that starts before the clock and is
  sorted ascending by start instant. Every slot of a generated block that does not start
  before the clock and conflicts with no fetched appointment is in the list, whether or not
  the block itself started in the past. The list is returned whenever the provider is
  stored and the duration is positive; for an unknown provider the call throws.
\<close>

theorem available_slots:
  "(getAvailableSlots rr now st ident fromDate toDate d = Some (Inr slots) \<longrightarrow>
      (\<forall>slot \<in> set slots. now \<le> startISO slot)
      \<and> sorted (map startISO slots)
      \<and> (\<forall>doctor a date bs b.
            getDoctorById st ident = Some doctor
            \<and> a \<in> set (weeklyAvailability doctor)
            \<and> date \<in> set (expandAvailabilityToDates rr a fromDate toDate)
            \<and> generateSlotsForBlock (combineDateAndTime date (startTime a))
                  (combineDateAndTime date (endTime a)) d = Some bs
            \<and> b \<in> set bs \<and> now \<le> fst b
            \<and> \<not> hasConflict \<lparr>startISO = fst b, endISO = snd b, ts_doctorId = d_id doctor\<rparr>
                   (getAppointmentsByDoctorAndDateRange st ident fromDate toDate)
            \<longrightarrow> \<lparr>startISO = fst b, endISO = snd b, ts_doctorId = d_id doctor\<rparr> \<in> set slots))
   \<and> (0 < d \<and> getDoctorById st ident \<noteq> None \<longrightarrow>
        (\<exists>found. getAvailableSlots rr now st ident fromDate toDate d = Some (Inr found)))
   \<and> (getDoctorById st ident = None \<longrightarrow>
        getAvailableSlots rr now st ident fromDate toDate d
          = Some (Inl (''Doctor with ID '' @ ident @ '' not found'')))"
proof (intro conjI impI)
  assume r: "getAvailableSlots rr now st ident fromDate toDate d = Some (Inr slots)"
  then obtain doctor allSlots where
    doc: "getDoctorById st ident = Some doctor"
    and gen: "generateAllPossibleSlots rr doctor fromDate toDate d now = Some allSlots"
    and sl: "slots = sort_key startISO
               (filterBookedSlots allSlots
                  (getAppointmentsByDoctorAndDateRange st ident fromDate toDate))"
    by (auto simp: getAvailableSlots_def Let_def split: option.splits)
  note mem = generateAllPossibleSlots_set[OF gen]
  have sub: "set slots \<subseteq> set allSlots" by (auto simp: sl filterBookedSlots_def)
  show "\<forall>slot \<in> set slots. now \<le> startISO slot"
  proof
    fix slot assume "slot \<in> set slots"
    then have "slot \<in> set allSlots" using sub by blast
    then show "now \<le> startISO slot" unfolding mem using slotsForDate_future by blast
  qed
  show "sorted (map startISO slots)" by (simp add: sl)
  show "\<forall>doctor a date bs b.
            getDoctorById st ident = Some doctor
            \<and> a \<in> set (weeklyAvailability doctor)
            \<and> date \<in> set (expandAvailabilityToDates rr a fromDate toDate)
            \<and> generateSlotsForBlock (combineDateAndTime date (startTime a))
                  (combineDateAndTime date (endTime a)) d = Some bs
            \<and> b \<in> set bs \<and> now \<le> fst b
            \<and> \<not> hasConflict \<lparr>startISO = fst b, endISO = snd b, ts_doctorId = d_id doctor\<rparr>
                   (getAppointmentsByDoctorAndDateRange st ident fromDate toDate)
            \<longrightarrow> \<lparr>startISO = fst b, endISO = snd b, ts_doctorId = d_id doctor\<rparr> \<in> set slots"
  proof (intro allI impI, elim conjE)
    fix doctor' a date bs b
    assume h: "getDoctorById st ident = Some doctor'" "a \<in> set (weeklyAvailability doctor')"
      "date \<in> set (expandAvailabilityToDates rr a fromDate toDate)"
      "generateSlotsForBlock (combineDateAndTime date (startTime a))
                  (combineDateAndTime date (endTime a)) d = Some bs"
      "b \<in> set bs" "now \<le> fst b"
      "\<not> hasConflict \<lparr>startISO = fst b, endISO = snd b, ts_doctorId = d_id doctor'\<rparr>
                   (getAppointmentsByDoctorAndDateRange st ident fromDate toDate)"
    have same: "doctor' = doctor" using doc h(1) by simp
    have "\<exists>zs. collect (slotsForDate doctor a d now)
                 (expandAvailabilityToDates rr a fromDate toDate) = Some zs"
      using gen h(2) same
        collect_Some_iff[of "\<lambda>a. collect (slotsForDate doctor a d now)
                      (expandAvailabilityToDates rr a fromDate toDate)" "weeklyAvailability doctor"]
      by (auto simp: generateAllPossibleSlots_def)
    then obtain zs where zs: "slotsForDate doctor a d now date = Some zs"
      using h(3) collect_Some_iff[of "slotsForDate doctor a d now"
                 "expandAvailabilityToDates rr a fromDate toDate"] by blast
    have "\<lparr>startISO = fst b, endISO = snd b, ts_doctorId = d_id doctor\<rparr> \<in> set zs"
      by (rule slotsForDate_keeps[OF zs h(4) h(5) h(6)])
    then have "\<lparr>startISO = fst b, endISO = snd b, ts_doctorId = d_id doctor\<rparr> \<in> set allSlots"
      unfolding mem using h(2,3) zs same by blast
    then show "\<lparr>startISO = fst b, endISO = snd b, ts_doctorId = d_id doctor'\<rparr> \<in> set slots"
      using h(7) same by (simp add: sl filterBookedSlots_def)
  qed
next
  assume h: "0 < d \<and> getDoctorById st ident \<noteq> None"
  then obtain doctor where doc: "getDoctorById st ident = Some doctor" by auto
  obtain allSlots where "generateAllPossibleSlots rr doctor fromDate toDate d now = Some allSlots"
    using generateAllPossibleSlots_returns[of d rr doctor fromDate toDate now] h by blast
  then show "\<exists>found. getAvailableSlots rr now st ident fromDate toDate d = Some (Inr found)"
    using doc by (simp add: getAvailableSlots_def Let_def)
next
  assume "getDoctorById st ident = None"
  then show "getAvailableSlots rr now st ident fromDate toDate d
          = Some (Inl (''Doctor with ID '' @ ident @ '' not found''))"
    by (simp add: getAvailableSlots_def)
qed

lemma sample_day_slots:
  "getAvailableSlots noRRule 1793610600000 sampleStore ''doc-1'' 1793577600000 1793663999999 30
     = Some (Inr [slotAt 1793611800000, slotAt 1793613600000, slotAt 1793615400000,
                  slotAt 1793617200000, slotAt 1793619000000])"
  by code_simp

theorem available_slots_witness:
  "getAvailableSlots noRRule 1793610600000 sampleStore ''doc-1'' 1793577600000 1793663999999 30
     = Some (Inr [slotAt 1793611800000, slotAt 1793613600000, slotAt 1793615400000,
                  slotAt 1793617200000, slotAt 1793619000000])
   \<and> combineDateAndTime 1793577600000 (startTime mondayMorning) < 1793610600000
   \<and> list_all (\<lambda>slot. 1793610600000 \<le> startISO slot)
        [slotAt 1793611800000, slotAt 1793613600000, slotAt 1793615400000,
         slotAt 1793617200000, slotAt 1793619000000]
   \<and> sorted (map startISO [slotAt 1793611800000, slotAt 1793613600000, slotAt 1793615400000,
                            slotAt 1793617200000, slotAt 1793619000000])
   \<and> getDoctorById sampleStore ''doc-1'' \<noteq> None
   \<and> (\<exists>found. getAvailableSlots noRRule 1793610600000 sampleStore ''doc-1''
                  1793577600000 1793663999999 30 = Some (Inr found))
   \<and> getDoctorById sampleStore ''doc-9'' = None
   \<and> getAvailableSlots noRRule 1793610600000 sampleStore ''doc-9'' 1793577600000 1793663999999 30
       = Some (Inl ''Doctor with ID doc-9 not found'')"
proof -
  note t = available_slots[of noRRule 1793610600000 sampleStore "''doc-1''" 1793577600000
             1793663999999 30, THEN conjunct1, rule_format, OF sample_day_slots]
  have p: "combineDateAndTime 1793577600000 (startTime mondayMorning) < 1793610600000"
    by (simp add: combineDateAndTime_def setHours_def msPerDay_def mondayMorning_def)
  have k: "getDoctorById sampleStore ''doc-1'' \<noteq> None"
    by (simp add: getDoctorById_def sampleStore_def sampleDoctor_def)
  have u: "getDoctorById sampleStore ''doc-9'' = None"
    by (simp add: getDoctorById_def sampleStore_def sampleDoctor_def)
  have d: "(0::int) < 30 \<and> getDoctorById sampleStore ''doc-1'' \<noteq> None" using k by simp
  note r = available_slots[of noRRule 1793610600000 sampleStore "''doc-1''" 1793577600000
             1793663999999 30, THEN conjunct2, THEN conjunct1, rule_format, OF d]
  have "getAvailableSlots noRRule 1793610600000 sampleStore ''doc-9'' 1793577600000
          1793663999999 30 = Some (Inl (''Doctor with ID '' @ ''doc-9'' @ '' not found''))"
    by (rule available_slots[of noRRule 1793610600000 sampleStore "''doc-9''" 1793577600000
             1793663999999 30, THEN conjunct2, THEN conjunct2, rule_format, OF u])
  then have n: "getAvailableSlots noRRule 1793610600000 sampleStore ''doc-9'' 1793577600000
          1793663999999 30 = Some (Inl ''Doctor with ID doc-9 not found'')"
    by simp
  show ?thesis using t sample_day_slots p k u r n unfolding list_all_iff by blast
qed

lemma getAvailableSlots_cases:
  "(getDoctorById st ident = None \<and>
      getAvailableSlots rr now st ident fromDate toDate 30
        = Some (Inl (''Doctor with ID '' @ ident @ '' not found'')))
   \<or> (getDoctorById st ident \<noteq> None \<and>
       (\<exists>found. getAvailableSlots rr now st ident fromDate toDate 30 = Some (Inr found)))"
proof (cases "getDoctorById st ident")
  case None
  then show ?thesis by (simp add: getAvailableSlots_def)
next
  case (Some doctor)
  obtain allSlots where "generateAllPossibleSlots rr doctor fromDate toDate 30 now = Some allSlots"
    using generateAllPossibleSlots_returns[of 30 rr doctor fromDate toDate now] by auto
  then show ?thesis using Some by (simp add: getAvailableSlots_def Let_def)
qed

lemma instant_toISOString [simp]: "instant (toISOString t) = t"
  by (simp add: toISOString_def)

lemma canonical_toISOString [simp]: "canonical (toISOString t)"
  by (simp add: toISOString_def)

lemma toISOString_eq: "toISOString t = s \<longleftrightarrow> canonical s \<and> t = instant s"
  by (cases s) (auto simp: toISOString_def)

lemma validate_unknown:
  "getDoctorById st ident = None \<Longrightarrow> validateSlotAvailability rr now st ident s e = Some False"
  using getAvailableSlots_cases[of st ident rr now "setHours (instant s) 0 0 0 0"
          "setHours (instant s) 23 59 59 999"]
  by (auto simp: validateSlotAvailability_def Let_def)

lemma validate_known:
  assumes "getDoctorById st ident \<noteq> None"
  shows "\<exists>daySlots.
           getAvailableSlots rr now st ident (setHours (instant s) 0 0 0 0)
               (setHours (instant s) 23 59 59 999) 30
             = Some (Inr daySlots)
           \<and> validateSlotAvailability rr now st ident s e
               = Some (canonical s \<and> canonical e
                       \<and> (\<exists>slot \<in> set daySlots. startISO slot = instant s
                                                \<and> endISO slot = instant e))"
proof -
  from getAvailableSlots_cases[of st ident rr now "setHours (instant s) 0 0 0 0"
          "setHours (instant s) 23 59 59 999"] assms
  obtain found where
    f: "getAvailableSlots rr now st ident (setHours (instant s) 0 0 0 0)
          (setHours (instant s) 23 59 59 999) 30 = Some (Inr found)"
    by auto
  have "list_ex (\<lambda>slot. toISOString (startISO slot) = s \<and> toISOString (endISO slot) = e) found
        \<longleftrightarrow> canonical s \<and> canonical e
            \<and> (\<exists>slot \<in> set found. startISO slot = instant s \<and> endISO slot = instant e)"
    unfolding list_ex_iff toISOString_eq by blast
  then show ?thesis using f by (simp add: validateSlotAvailability_def Let_def)
qed

lemma validate_returns: "\<exists>b. validateSlotAvailability rr now st ident s e = Some b"
  using validate_unknown[of st ident rr now s e] validate_known[of st ident rr now s e]
  by (cases "getDoctorById st ident") auto

lemma slotTaken_unknown:
  "getDoctorById st ident = None \<Longrightarrow>
     slotTaken rr now st ident msg
       = Some (bookingFailure (''Doctor with ID '' @ ident @ '' not found''), st)"
  using getAvailableSlots_cases[of st ident rr now now "addDays now 30"]
  by (auto simp: slotTaken_def getNextAvailableSlots_def Let_def)

lemma slotTaken_known:
  assumes "getDoctorById st ident \<noteq> None"
  shows "\<exists>nextSlots.
           getAvailableSlots rr now st ident now (addDays now 30) 30 = Some (Inr nextSlots)
           \<and> slotTaken rr now st ident msg
               = Some (\<lparr>success = False, appointment_of = None, error = Some msg,
                        nextAvailableSlots =
                          Some (map (\<lambda>slot. (startISO slot, endISO slot)) (take 3 nextSlots))\<rparr>,
                       st)"
  using getAvailableSlots_cases[of st ident rr now now "addDays now 30"] assms
  by (auto simp: slotTaken_def getNextAvailableSlots_def Let_def)

lemma slotTaken_fails:
  "\<exists>r. slotTaken rr now st ident msg = Some (r, st) \<and> \<not> success r \<and> appointment_of r = None"
  using slotTaken_unknown[of st ident rr now msg] slotTaken_known[of st ident rr now msg]
  by (cases "getDoctorById st ident") (auto simp: bookingFailure_def)


text \<open>
  C1. \<^verbatim>\<open>BookAppointmentUseCase.execute\<close> checks in this order, each failure with its own
  message and the store returned as it was: a request with an empty provider id or without
  start or end instant fails with \<open>Missing required appointment data\<close>; otherwise an end
  instant not strictly after the start fails with \<open>End time must be after start time\<close>;
  otherwise a start instant before the clock fails with
  \<open>Cannot book appointments in the past\<close>. A failure result carries no appointment.
\<close>

theorem booking_validation:
  "(c_doctorId request = [] \<or> c_startDateISO request = None \<or> c_endDateISO request = None
      \<longrightarrow> bookAppointment rr uuid now st request
            = Some (bookingFailure ''Missing required appointment data'', st))
   \<and> (c_doctorId request \<noteq> [] \<and> c_startDateISO request = Some s
        \<and> c_endDateISO request = Some e \<and> instant e \<le> instant s
      \<longrightarrow> bookAppointment rr uuid now st request
            = Some (bookingFailure ''End time must be after start time'', st))
   \<and> (c_doctorId request \<noteq> [] \<and> c_startDateISO request = Some s
        \<and> c_endDateISO request = Some e \<and> instant s < instant e \<and> instant s < now
      \<longrightarrow> bookAppointment rr uuid now st request
            = Some (bookingFailure ''Cannot book appointments in the past'', st))
   \<and> (\<forall>msg. \<not> success (bookingFailure msg) \<and> appointment_of (bookingFailure msg) = None
            \<and> error (bookingFailure msg) = Some msg)"
  by (auto simp: bookAppointment_def bookingFailure_def split: option.splits)

theorem booking_validation_witness:
  "bookAppointment noRRule ''id-1'' 1793600000000 sampleStore
      (sampleRequest [] (Some (toISOString 1793611800000)) (Some (toISOString 1793613600000)))
     = Some (bookingFailure ''Missing required appointment data'', sampleStore)
   \<and> bookAppointment noRRule ''id-1'' 1793600000000 sampleStore
      (sampleRequest ''doc-1'' None (Some (toISOString 1793613600000)))
     = Some (bookingFailure ''Missing required appointment data'', sampleStore)
   \<and> bookAppointment noRRule ''id-1'' 1793600000000 sampleStore
      (sampleRequest ''doc-1'' (Some (toISOString 1793611800000)) (Some (toISOString 1793611800000)))
     = Some (bookingFailure ''End time must be after start time'', sampleStore)
   \<and> bookAppointment noRRule ''id-1'' 1793612000000 sampleStore
      (sampleRequest ''doc-1'' (Some (toISOString 1793611800000)) (Some (toISOString 1793613600000)))
     = Some (bookingFailure ''Cannot book appointments in the past'', sampleStore)"
  using booking_validation[of "sampleRequest [] (Some (toISOString 1793611800000)) (Some (toISOString 1793613600000))"
          noRRule "''id-1''" 1793600000000 sampleStore]
    booking_validation[of "sampleRequest ''doc-1'' None (Some (toISOString 1793613600000))"
          noRRule "''id-1''" 1793600000000 sampleStore]
    booking_validation[of "sampleRequest ''doc-1'' (Some (toISOString 1793611800000)) (Some (toISOString 1793611800000))"
          noRRule "''id-1''" 1793600000000 sampleStore
          "toISOString 1793611800000" "toISOString 1793611800000"]
    booking_validation[of "sampleRequest ''doc-1'' (Some (toISOString 1793611800000)) (Some (toISOString 1793613600000))"
          noRRule "''id-1''" 1793612000000 sampleStore
          "toISOString 1793611800000" "toISOString 1793613600000"]
  by (simp add: sampleRequest_def)


text \<open>
  C10. For every booking request whose provider id matches no stored provider,
  \<^verbatim>\<open>BookAppointmentUseCase.execute\<close> returns a failure result and the store as it was; for
  a request that passes the checks of C1 the message is that of the error thrown by the slot
  query, \<open>Doctor with ID ... not found\<close>.
\<close>

theorem unknown_provider:
  assumes "getDoctorById st (c_doctorId request) = None"
  shows "\<exists>msg. bookAppointment rr uuid now st request = Some (bookingFailure msg, st)
           \<and> \<not> success (bookingFailure msg)
           \<and> (c_doctorId request \<noteq> [] \<and> c_startDateISO request = Some s
               \<and> c_endDateISO request = Some e \<and> instant s < instant e \<and> now \<le> instant s
               \<longrightarrow> msg = ''Doctor with ID '' @ c_doctorId request @ '' not found'')"
proof -
  note v = validate_unknown[OF assms, of rr now] 
  note t = slotTaken_unknown[OF assms, of rr now]
  show ?thesis
    by (cases "c_startDateISO request"; cases "c_endDateISO request")
       (auto simp: bookAppointment_def v t bookingFailure_def)
qed

theorem unknown_provider_witness:
  "getDoctorById sampleStore ''doc-9'' = None
   \<and> bookAppointment noRRule ''id-1'' 1793600000000 sampleStore
       (sampleRequest ''doc-9'' (Some (toISOString 1793611800000)) (Some (toISOString 1793613600000)))
      = Some (bookingFailure ''Doctor with ID doc-9 not found'', sampleStore)
   \<and> \<not> success (bookingFailure ''Doctor with ID doc-9 not found'')"
proof -
  have n: "getDoctorById sampleStore
             (c_doctorId (sampleRequest ''doc-9'' (Some (toISOString 1793611800000)) (Some (toISOString 1793613600000)))) = None"
    by (simp add: getDoctorById_def sampleStore_def sampleDoctor_def sampleRequest_def)
  from unknown_provider[OF n, of noRRule "''id-1''" 1793600000000
         "toISOString 1793611800000" "toISOString 1793613600000"]
  show ?thesis using n by (auto simp: sampleRequest_def)
qed

lemma slotsForDate_length:
  assumes "slotsForDate doctor a d now date = Some zs" "slot \<in> set zs" "0 < d"
  shows "endISO slot = startISO slot + d * 60000"
  using assms generateSlotsForBlock_pos[OF assms(3)]
  by (auto simp: slotsForDate_def Let_def algebra_simps split: if_splits)



lemma getAvailableSlots_sound:
  assumes "getAvailableSlots rr now st ident fromDate toDate d = Some (Inr slots)"
  shows "sorted (map startISO slots)"
    and "\<forall>slot \<in> set slots. now \<le> startISO slot"
    and "0 < d \<longrightarrow> (\<forall>slot \<in> set slots. endISO slot = startISO slot + d * 60000)"
proof -
  from assms obtain doctor allSlots where
    gen: "generateAllPossibleSlots rr doctor fromDate toDate d now = Some allSlots"
    and sl: "slots = sort_key startISO
               (filterBookedSlots allSlots
                  (getAppointmentsByDoctorAndDateRange st ident fromDate toDate))"
    by (auto simp: getAvailableSlots_def Let_def split: option.splits)
  note mem = generateAllPossibleSlots_set[OF gen]
  have sub: "set slots \<subseteq> set allSlots" by (auto simp: sl filterBookedSlots_def)
  show "sorted (map startISO slots)" by (simp add: sl)
  show "\<forall>slot \<in> set slots. now \<le> startISO slot"
    using sub unfolding mem using slotsForDate_future by blast
  show "0 < d \<longrightarrow> (\<forall>slot \<in> set slots. endISO slot = startISO slot + d * 60000)"
    using sub unfolding mem using slotsForDate_length by blast
qed





lemma validate_true:
  assumes "validateSlotAvailability rr now st ident s e = Some True"
  shows "now \<le> instant s \<and> instant e = instant s + 1800000
         \<and> canonical s \<and> canonical e \<and> getDoctorById st ident \<noteq> None"
proof -
  have known: "getDoctorById st ident \<noteq> None"
    using assms validate_unknown[of st ident rr now s e] by auto
  from validate_known[OF known, of rr now s e] assms
  obtain daySlots slot where
    d: "getAvailableSlots rr now st ident (setHours (instant s) 0 0 0 0)
          (setHours (instant s) 23 59 59 999) 30 = Some (Inr daySlots)"
    and m: "slot \<in> set daySlots" "startISO slot = instant s" "endISO slot = instant e"
    and c: "canonical s" "canonical e"
    by auto
  show ?thesis using getAvailableSlots_sound(2,3)[OF d] m c known by auto
qed







lemma find_findIndex:
  "find P xs = Some x \<Longrightarrow>
     \<exists>i. findIndex P xs = Some i \<and> i < length xs \<and> xs ! i = x \<and> P x
         \<and> (\<forall>j < i. \<not> P (xs ! j))"
proof (induction xs)
  case Nil
  then show ?case by simp
next
  case (Cons y ys)
  show ?case
  proof (cases "P y")
    case True
    then show ?thesis using Cons.prems by simp
  next
    case False
    then have "find P ys = Some x" using Cons.prems by simp
    then obtain i where i: "findIndex P ys = Some i" "i < length ys" "ys ! i = x" "P x"
      "\<forall>j < i. \<not> P (ys ! j)"
      using Cons.IH by blast
    have "\<forall>j < Suc i. \<not> P ((y # ys) ! j)"
      using False i(5) by (auto simp: nth_Cons split: nat.splits)
    then show ?thesis using False i by (intro exI[of _ "Suc i"]) simp
  qed
qed

lemma find_update_first:
  "i < length xs \<Longrightarrow> \<forall>j < i. \<not> P (xs ! j) \<Longrightarrow> P y \<Longrightarrow> find P (xs[i := y]) = Some y"
proof (induction xs arbitrary: i)
  case Nil
  then show ?case by simp
next
  case (Cons x xs)
  show ?case
  proof (cases i)
    case 0
    then show ?thesis using Cons.prems by simp
  next
    case (Suc k)
    have "\<not> P x" using Cons.prems(2) Suc by auto
    moreover have "\<forall>j < k. \<not> P (xs ! j)" using Cons.prems(2) Suc by auto
    ultimately show ?thesis using Cons.IH[of k] Cons.prems Suc by simp
  qed
qed

lemma updateAppointment_found:
  assumes "getAppointmentById st aid = Some existing" "apt_id updated = apt_id existing"
  shows "\<exists>index. index < length (appointments st) \<and> appointments st ! index = existing
           \<and> apt_id existing = aid
           \<and> updateAppointment st updated
               = Inr (st\<lparr>appointments := (appointments st)[index := updated]\<rparr>)
           \<and> getAppointmentById (st\<lparr>appointments := (appointments st)[index := updated]\<rparr>) aid
               = Some updated"
proof -
  from find_findIndex[of "\<lambda>a. apt_id a = aid" "appointments st" existing] assms(1)
  obtain i where i: "findIndex (\<lambda>a. apt_id a = aid) (appointments st) = Some i"
    "i < length (appointments st)" "appointments st ! i = existing" "apt_id existing = aid"
    "\<forall>j < i. apt_id (appointments st ! j) \<noteq> aid"
    by (auto simp: getAppointmentById_def)
  have "find (\<lambda>a. apt_id a = aid) ((appointments st)[i := updated]) = Some updated"
    using find_update_first[of i "appointments st" "\<lambda>a. apt_id a = aid" updated] i assms(2)
    by simp
  then show ?thesis
    using i assms(2) by (intro exI[of _ i]) (simp add: updateAppointment_def getAppointmentById_def)
qed


text \<open>
  C7. \<^verbatim>\<open>BookAppointmentUseCase.reschedule\<close> fails with \<open>Appointment not found\<close> when the
  appointment is not stored. Otherwise it has no check of its own on the new times: it
  succeeds only if the slots recomputed for the calendar day of the new start, for the
  provider of the existing appointment, hold one with exactly the new start and end
  instants, and does succeed then when the two new strings are written as
  \<^verbatim>\<open>toISOString()\<close> writes them. A new start before the clock or a new end not after the
  new start therefore never succeeds. Every failure returns the store as it was; for a
  stored provider it is \<open>New slot already booked\<close> with the first slots of the 30-day
  query as alternatives. On success the stored appointment is replaced in place by itself
  with the new start, end and update instant, every other field unchanged. The
  counterexample is a reschedule into the past, next to the booking of the same times.
\<close>

theorem reschedule_behaviour:
  "(getAppointmentById st aid = None \<longrightarrow>
      reschedule rr now st aid s e = Some (bookingFailure ''Appointment not found'', st))
   \<and> (getAppointmentById st aid = Some existing \<longrightarrow>
      (\<exists>r st'. reschedule rr now st aid s e = Some (r, st')
         \<and> (success r \<longleftrightarrow>
              canonical s \<and> canonical e
              \<and> (\<exists>daySlots. getAvailableSlots rr now st (doctorId existing)
                               (setHours (instant s) 0 0 0 0)
                               (setHours (instant s) 23 59 59 999) 30
                             = Some (Inr daySlots)
                          \<and> (\<exists>slot \<in> set daySlots. startISO slot = instant s
                                                   \<and> endISO slot = instant e)))
         \<and> (success r \<longrightarrow>
              now \<le> instant s \<and> instant s < instant e
              \<and> appointment_of r
                  = Some (existing\<lparr>startDateISO := instant s, endDateISO := instant e,
                                   updatedAt := Some now\<rparr>)
              \<and> (\<exists>index. index < length (appointments st)
                    \<and> appointments st ! index = existing
                    \<and> st' = st\<lparr>appointments := (appointments st)
                               [index := existing\<lparr>startDateISO := instant s,
                                                  endDateISO := instant e,
                                                  updatedAt := Some now\<rparr>]\<rparr>))
         \<and> (\<not> success r \<longrightarrow>
              st' = st \<and> appointment_of r = None
              \<and> (getDoctorById st (doctorId existing) \<noteq> None \<longrightarrow>
                    error r = Some ''New slot already booked''
                    \<and> (\<exists>nextSlots.
                          getAvailableSlots rr now st (doctorId existing) now (addDays now 30) 30
                            = Some (Inr nextSlots)
                          \<and> nextAvailableSlots r
                              = Some (map (\<lambda>slot. (startISO slot, endISO slot))
                                        (take 3 nextSlots)))))
         \<and> (instant e \<le> instant s \<or> instant s < now \<longrightarrow> \<not> success r)))"
proof (intro conjI impI)
  assume "getAppointmentById st aid = None"
  then show "reschedule rr now st aid s e = Some (bookingFailure ''Appointment not found'', st)"
    by (simp add: reschedule_def)
next
  assume ex: "getAppointmentById st aid = Some existing"
  let ?ident = "doctorId existing"
  let ?upd = "existing\<lparr>startDateISO := instant s, endDateISO := instant e,
                       updatedAt := Some now\<rparr>"
  let ?exact = "canonical s \<and> canonical e
                \<and> (\<exists>daySlots. getAvailableSlots rr now st ?ident
                             (setHours (instant s) 0 0 0 0)
                             (setHours (instant s) 23 59 59 999) 30
                           = Some (Inr daySlots)
                        \<and> (\<exists>slot \<in> set daySlots. startISO slot = instant s
                                                 \<and> endISO slot = instant e))"
  have exact: "validateSlotAvailability rr now st ?ident s e = Some ?exact"
  proof (cases "getDoctorById st ?ident")
    case None
    then have "getAvailableSlots rr now st ?ident (setHours (instant s) 0 0 0 0)
                 (setHours (instant s) 23 59 59 999) 30
               = Some (Inl (''Doctor with ID '' @ ?ident @ '' not found''))"
      by (simp add: getAvailableSlots_def)
    then show ?thesis using validate_unknown[OF None, of rr now s e] by simp
  next
    case (Some doctor)
    then have "getDoctorById st ?ident \<noteq> None" by simp
    from validate_known[OF this, of rr now s e] show ?thesis by auto
  qed
  show "\<exists>r st'. reschedule rr now st aid s e = Some (r, st')
         \<and> (success r \<longleftrightarrow> ?exact)
         \<and> (success r \<longrightarrow>
              now \<le> instant s \<and> instant s < instant e
              \<and> appointment_of r = Some ?upd
              \<and> (\<exists>index. index < length (appointments st)
                    \<and> appointments st ! index = existing
                    \<and> st' = st\<lparr>appointments := (appointments st)[index := ?upd]\<rparr>))
         \<and> (\<not> success r \<longrightarrow>
              st' = st \<and> appointment_of r = None
              \<and> (getDoctorById st ?ident \<noteq> None \<longrightarrow>
                    error r = Some ''New slot already booked''
                    \<and> (\<exists>nextSlots.
                          getAvailableSlots rr now st ?ident now (addDays now 30) 30
                            = Some (Inr nextSlots)
                          \<and> nextAvailableSlots r
                              = Some (map (\<lambda>slot. (startISO slot, endISO slot))
                                        (take 3 nextSlots)))))
         \<and> (instant e \<le> instant s \<or> instant s < now \<longrightarrow> \<not> success r)"
  proof (cases ?exact)
    case True
    then have v: "validateSlotAvailability rr now st ?ident s e = Some True"
      using exact by simp
    note ok = validate_true[OF v]
    from updateAppointment_found[OF ex, of ?upd]
    obtain index where i: "index < length (appointments st)" "appointments st ! index = existing"
      "updateAppointment st ?upd = Inr (st\<lparr>appointments := (appointments st)[index := ?upd]\<rparr>)"
      by auto
    have "reschedule rr now st aid s e
            = Some (\<lparr>success = True, appointment_of = Some ?upd, error = None,
                     nextAvailableSlots = None\<rparr>,
                    st\<lparr>appointments := (appointments st)[index := ?upd]\<rparr>)"
      using ex v i(3) by (simp add: reschedule_def Let_def)
    then show ?thesis using True ok i(1,2) by auto
  next
    case False
    then have v: "validateSlotAvailability rr now st ?ident s e = Some False"
      using exact by simp
    have r: "reschedule rr now st aid s e = slotTaken rr now st ?ident ''New slot already booked''"
      using ex v by (simp add: reschedule_def)
    show ?thesis
    proof (cases "getDoctorById st ?ident")
      case None
      show ?thesis
        using False None slotTaken_unknown[OF None, of rr now "''New slot already booked''"]
        unfolding r by (simp add: bookingFailure_def)
    next
      case (Some doctor)
      then have k: "getDoctorById st ?ident \<noteq> None" by simp
      from slotTaken_known[OF k, of rr now "''New slot already booked''"]
      obtain nextSlots where
        n: "getAvailableSlots rr now st ?ident now (addDays now 30) 30 = Some (Inr nextSlots)"
        and t: "slotTaken rr now st ?ident ''New slot already booked''
               = Some (\<lparr>success = False, appointment_of = None,
                        error = Some ''New slot already booked'',
                        nextAvailableSlots =
                          Some (map (\<lambda>slot. (startISO slot, endISO slot)) (take 3 nextSlots))\<rparr>,
                       st)"
        by blast
      show ?thesis using False n unfolding r t by simp
    qed
  qed
qed

theorem reschedule_behaviour_counterexample:
  "reschedule noRRule 1793614200000 sampleStore ''apt-1''
     (toISOString 1793611800000) (toISOString 1793613600000)
     = Some (\<lparr>success = False, appointment_of = None, error = Some ''New slot already booked'',
              nextAvailableSlots =
                Some [(1793615400000, 1793617200000), (1793617200000, 1793619000000),
                      (1793619000000, 1793620800000)]\<rparr>, sampleStore)
   \<and> bookAppointment noRRule ''id-1'' 1793614200000 sampleStore
        (sampleRequest ''doc-1'' (Some (toISOString 1793611800000))
           (Some (toISOString 1793613600000)))
     = Some (bookingFailure ''Cannot book appointments in the past'', sampleStore)"
  by code_simp

lemma sample_reschedule:
  "reschedule noRRule 1793606400000 sampleStore ''apt-1''
     (toISOString 1793613600000) (toISOString 1793615400000)
     = Some (\<lparr>success = True,
              appointment_of = Some (sampleAppointment\<lparr>startDateISO := 1793613600000,
                                       endDateISO := 1793615400000,
                                       updatedAt := Some 1793606400000\<rparr>),
              error = None, nextAvailableSlots = None\<rparr>,
             sampleStore\<lparr>appointments :=
               [sampleAppointment\<lparr>startDateISO := 1793613600000,
                                  endDateISO := 1793615400000,
                                  updatedAt := Some 1793606400000\<rparr>]\<rparr>)"
  by code_simp

theorem reschedule_behaviour_witness:
  "getAppointmentById sampleStore ''apt-1'' = Some sampleAppointment
   \<and> reschedule noRRule 1793606400000 sampleStore ''apt-1''
       (toISOString 1793613600000) (toISOString 1793615400000)
     = Some (\<lparr>success = True,
              appointment_of = Some (sampleAppointment\<lparr>startDateISO := 1793613600000,
                                       endDateISO := 1793615400000,
                                       updatedAt := Some 1793606400000\<rparr>),
              error = None, nextAvailableSlots = None\<rparr>,
             sampleStore\<lparr>appointments :=
               [sampleAppointment\<lparr>startDateISO := 1793613600000,
                                  endDateISO := 1793615400000,
                                  updatedAt := Some 1793606400000\<rparr>]\<rparr>)
   \<and> (\<exists>daySlots. getAvailableSlots noRRule 1793606400000 sampleStore
                     (doctorId sampleAppointment)
                     (setHours 1793613600000 0 0 0 0) (setHours 1793613600000 23 59 59 999) 30
                   = Some (Inr daySlots)
                 \<and> (\<exists>slot \<in> set daySlots. startISO slot = 1793613600000
                                         \<and> endISO slot = 1793615400000))
   \<and> (\<exists>r. reschedule noRRule 1793606400000 sampleStore ''apt-1''
              (IsoString 1793613600000 False) (toISOString 1793615400000)
            = Some (r, sampleStore) \<and> \<not> success r)
   \<and> getAppointmentById sampleStore ''apt-7'' = None
   \<and> reschedule noRRule 1793606400000 sampleStore ''apt-7''
        (toISOString 1793613600000) (toISOString 1793615400000)
       = Some (bookingFailure ''Appointment not found'', sampleStore)"
proof -
  have g: "getAppointmentById sampleStore ''apt-1'' = Some sampleAppointment"
    by (simp add: getAppointmentById_def sampleStore_def sampleAppointment_def)
  have n: "getAppointmentById sampleStore ''apt-7'' = None"
    by (simp add: getAppointmentById_def sampleStore_def sampleAppointment_def)
  note t = reschedule_behaviour[of sampleStore "''apt-1''" noRRule 1793606400000
             "toISOString 1793613600000" "toISOString 1793615400000" sampleAppointment,
             THEN conjunct2, rule_format, OF g]
  note x = reschedule_behaviour[of sampleStore "''apt-1''" noRRule 1793606400000
             "IsoString 1793613600000 False" "toISOString 1793615400000" sampleAppointment,
             THEN conjunct2, rule_format, OF g]
  note u = reschedule_behaviour[of sampleStore "''apt-7''" noRRule 1793606400000
             "toISOString 1793613600000" "toISOString 1793615400000" sampleAppointment,
             THEN conjunct1, rule_format, OF n]
  from t obtain r st' where
    h: "reschedule noRRule 1793606400000 sampleStore ''apt-1''
          (toISOString 1793613600000) (toISOString 1793615400000) = Some (r, st')"
       "success r \<longleftrightarrow>
          canonical (toISOString 1793613600000) \<and> canonical (toISOString 1793615400000)
          \<and> (\<exists>daySlots. getAvailableSlots noRRule 1793606400000 sampleStore
                     (doctorId sampleAppointment)
                     (setHours (instant (toISOString 1793613600000)) 0 0 0 0)
                     (setHours (instant (toISOString 1793613600000)) 23 59 59 999) 30
                   = Some (Inr daySlots)
                 \<and> (\<exists>slot \<in> set daySlots.
                        startISO slot = instant (toISOString 1793613600000)
                        \<and> endISO slot = instant (toISOString 1793615400000)))"
    by blast
  have "Some (r, st') = Some (\<lparr>success = True,
              appointment_of = Some (sampleAppointment\<lparr>startDateISO := 1793613600000,
                                       endDateISO := 1793615400000,
                                       updatedAt := Some 1793606400000\<rparr>),
              error = None, nextAvailableSlots = None\<rparr>,
             sampleStore\<lparr>appointments :=
               [sampleAppointment\<lparr>startDateISO := 1793613600000,
                                  endDateISO := 1793615400000,
                                  updatedAt := Some 1793606400000\<rparr>]\<rparr>)"
    using h(1) sample_reschedule by (rule trans[OF sym])
  then have "success r" by auto
  then have matched: "\<exists>daySlots. getAvailableSlots noRRule 1793606400000 sampleStore
                     (doctorId sampleAppointment)
                     (setHours 1793613600000 0 0 0 0) (setHours 1793613600000 23 59 59 999) 30
                   = Some (Inr daySlots)
                 \<and> (\<exists>slot \<in> set daySlots. startISO slot = 1793613600000
                                         \<and> endISO slot = 1793615400000)"
    using h(2) by simp
  from x obtain rx stx where
    y: "reschedule noRRule 1793606400000 sampleStore ''apt-1''
          (IsoString 1793613600000 False) (toISOString 1793615400000) = Some (rx, stx)"
       "success rx \<longrightarrow> canonical (IsoString 1793613600000 False)"
       "\<not> success rx \<longrightarrow> stx = sampleStore"
    by blast
  have "\<not> success rx" using y(2) by simp
  then have spelled: "\<exists>r. reschedule noRRule 1793606400000 sampleStore ''apt-1''
              (IsoString 1793613600000 False) (toISOString 1793615400000)
            = Some (r, sampleStore) \<and> \<not> success r"
    using y(1,3) by auto
  show ?thesis using g n u sample_reschedule matched spelled by simp
qed

lemma dropWhile_id: "xs \<noteq> [] \<Longrightarrow> \<not> P (hd xs) \<Longrightarrow> dropWhile P xs = xs"
  by (cases xs) simp_all

lemma trim_id:
  assumes "x \<noteq> []" "\<not> isWhiteSpace (hd x)" "\<not> isWhiteSpace (last x)"
  shows "trim x = x"
proof -
  have a: "dropWhile isWhiteSpace x = x"
    using assms(1,2) by (rule dropWhile_id)
  have "rev x \<noteq> []" "\<not> isWhiteSpace (hd (rev x))" using assms(1,3) by (simp_all add: hd_rev)
  then have b: "dropWhile isWhiteSpace (rev x) = rev x"
    by (rule dropWhile_id)
  show ?thesis by (simp add: trim_def a b)
qed

lemma cancellationNotes_append:
  assumes "prior \<noteq> []" "\<not> isWhiteSpace (hd prior)" "r \<noteq> []" "\<not> isWhiteSpace (last r)"
  shows "cancellationNotes (Some prior) r = prior @ [CHR 0x0A] @ ''Cancellation reason: '' @ r"
proof -
  let ?x = "prior @ [CHR 0x0A] @ ''Cancellation reason: '' @ r"
  have "?x \<noteq> []" using assms(1) by simp
  moreover have "hd ?x = hd prior" using assms(1) by simp
  moreover have "last ?x = last r" using assms(3) by simp
  ultimately have "trim ?x = ?x" using assms(2,4) by (intro trim_id) simp_all
  then show ?thesis by (simp add: cancellationNotes_def)
qed

lemma cancellationNotes_first:
  assumes "r \<noteq> []" "\<not> isWhiteSpace (last r)"
  shows "cancellationNotes None r = ''Cancellation reason: '' @ r"
proof -
  let ?x = "''Cancellation reason: '' @ r"
  have "last ?x = last r" using assms(1) by simp
  then have "trim ?x = ?x" using assms(2) by (intro trim_id) (simp_all add: isWhiteSpace_def)
  moreover have "trim ([CHR 0x0A] @ ?x) = trim ?x"
    by (simp add: trim_def isWhiteSpace_def)
  ultimately show ?thesis by (simp add: cancellationNotes_def)
qed

lemma label_char: "CHR ''C'' \<in> set (''Cancellation reason: '' @ r) \<and> \<not> isWhiteSpace CHR ''C''"
  by (simp add: isWhiteSpace_def)

lemma cancellationNotes_general:
  assumes "\<exists>c \<in> set prior. \<not> isWhiteSpace c"
  shows "cancellationNotes (Some prior) r =
           dropWhile isWhiteSpace prior @ [CHR 0x0A]
           @ rev (dropWhile isWhiteSpace (rev (''Cancellation reason: '' @ r)))"
proof -
  let ?l = "''Cancellation reason: '' @ r"
  let ?m = "[CHR 0x0A] @ ?l"
  obtain c where c: "c \<in> set prior" "\<not> isWhiteSpace c" using assms by blast
  have 1: "dropWhile isWhiteSpace (prior @ ?m) = dropWhile isWhiteSpace prior @ ?m"
    using c by (rule dropWhile_append1)
  have C: "CHR ''C'' \<in> set (rev ?l)" "\<not> isWhiteSpace CHR ''C''"
    using label_char[of r] by simp_all
  have 2: "dropWhile isWhiteSpace (rev ?l @ ys) = dropWhile isWhiteSpace (rev ?l) @ ys" for ys
    using C by (rule dropWhile_append1)
  have "rev (dropWhile isWhiteSpace prior @ ?m)
          = rev ?l @ ([CHR 0x0A] @ rev (dropWhile isWhiteSpace prior))"
    by simp
  then have "dropWhile isWhiteSpace (rev (dropWhile isWhiteSpace prior @ ?m))
          = dropWhile isWhiteSpace (rev ?l) @ ([CHR 0x0A] @ rev (dropWhile isWhiteSpace prior))"
    using 2 by (simp only:)
  then have "trim (prior @ ?m)
          = rev (dropWhile isWhiteSpace (rev ?l) @ ([CHR 0x0A] @ rev (dropWhile isWhiteSpace prior)))"
    unfolding trim_def 1 by (simp only:)
  then show ?thesis by (simp add: cancellationNotes_def)
qed


lemma cancellationNotes_blank:
  assumes "\<forall>c \<in> set prior. isWhiteSpace c"
  shows "cancellationNotes (Some prior) r =
           rev (dropWhile isWhiteSpace (rev (''Cancellation reason: '' @ r)))"
proof -
  let ?l = "''Cancellation reason: '' @ r"
  have "dropWhile isWhiteSpace (prior @ [CHR 0x0A] @ ?l) = dropWhile isWhiteSpace ([CHR 0x0A] @ ?l)"
    using assms by (intro dropWhile_append2) simp
  also have "\<dots> = ?l" by (simp add: isWhiteSpace_def)
  finally show ?thesis by (simp add: cancellationNotes_def trim_def)
qed

lemma cancellationNotes_none:
  "cancellationNotes None r = rev (dropWhile isWhiteSpace (rev (''Cancellation reason: '' @ r)))"
  using cancellationNotes_blank[of "[]" r] by (simp add: cancellationNotes_def)

text \<open>
  C8. \<^verbatim>\<open>CancelAppointmentUseCase.execute\<close> applies its guards in order, each failure
  leaving the store as it was: \<open>Appointment not found\<close> when the appointment is not stored,
  \<open>Appointment is already cancelled\<close> when its status is cancelled,
  \<open>Cannot cancel past appointments\<close> when its start instant is before the clock.
  Otherwise the stored appointment is replaced in place by itself with status cancelled,
  the update instant set to the clock and, when a non-empty reason is given, the notes set
  to the text of the prior notes (or nothing), a line feed and \<open>Cancellation reason: \<close>
  followed by the reason, trimmed of white space at both ends. So prior notes that hold a
  character other than white space are kept but for their leading white space, and are
  followed by the line feed and the reason line without its trailing white space; prior
  notes that are absent, empty or white space leave the reason line alone; and prior notes
  that do not start with white space, with a reason that does not end with it, are kept
  as they are. After a successful cancel, cancelling the same appointment again, at any time
  and for any reason, fails with \<open>Appointment is already cancelled\<close>. The counterexample is
  an appointment whose notes start with a space, and one whose notes are two spaces.
\<close>

theorem cancellation:
  "(getAppointmentById st aid = None \<longrightarrow>
      cancelAppointment now st aid reason = (cancelFailure ''Appointment not found'', st))
   \<and> (getAppointmentById st aid = Some existing \<and> status existing = Cancelled \<longrightarrow>
      cancelAppointment now st aid reason
        = (cancelFailure ''Appointment is already cancelled'', st))
   \<and> (getAppointmentById st aid = Some existing \<and> status existing \<noteq> Cancelled
        \<and> startDateISO existing < now \<longrightarrow>
      cancelAppointment now st aid reason
        = (cancelFailure ''Cannot cancel past appointments'', st))
   \<and> (getAppointmentById st aid = Some existing \<and> status existing \<noteq> Cancelled
        \<and> now \<le> startDateISO existing \<longrightarrow>
      (\<exists>index cancelled st'.
          cancelled = existing
            \<lparr>status := Cancelled,
             apt_notes := (case reason of
                             None \<Rightarrow> apt_notes existing
                           | Some r \<Rightarrow> if r = [] then apt_notes existing
                                      else Some (cancellationNotes (apt_notes existing) r)),
             updatedAt := Some now\<rparr>
        \<and> index < length (appointments st) \<and> appointments st ! index = existing
        \<and> st' = st\<lparr>appointments := (appointments st)[index := cancelled]\<rparr>
        \<and> cancelAppointment now st aid reason
            = (\<lparr>cr_success = True, cr_appointment = Some cancelled, cr_error = None\<rparr>, st')
        \<and> (\<forall>now' reason'. cancelAppointment now' st' aid reason'
              = (cancelFailure ''Appointment is already cancelled'', st'))))
   \<and> (\<forall>prior r. (\<exists>c \<in> set prior. \<not> isWhiteSpace c)
         \<longrightarrow> cancellationNotes (Some prior) r
               = dropWhile isWhiteSpace prior @ [CHR 0x0A]
                 @ rev (dropWhile isWhiteSpace (rev (''Cancellation reason: '' @ r))))
   \<and> (\<forall>prior r. (\<forall>c \<in> set prior. isWhiteSpace c)
         \<longrightarrow> cancellationNotes (Some prior) r
               = rev (dropWhile isWhiteSpace (rev (''Cancellation reason: '' @ r))))
   \<and> (\<forall>r. cancellationNotes None r
               = rev (dropWhile isWhiteSpace (rev (''Cancellation reason: '' @ r))))
   \<and> (\<forall>prior r. prior \<noteq> [] \<and> \<not> isWhiteSpace (hd prior) \<and> r \<noteq> [] \<and> \<not> isWhiteSpace (last r)
         \<longrightarrow> cancellationNotes (Some prior) r
               = prior @ [CHR 0x0A] @ ''Cancellation reason: '' @ r)
   \<and> (\<forall>r. r \<noteq> [] \<and> \<not> isWhiteSpace (last r)
         \<longrightarrow> cancellationNotes None r = ''Cancellation reason: '' @ r)
   \<and> (\<forall>msg. \<not> cr_success (cancelFailure msg) \<and> cr_error (cancelFailure msg) = Some msg)"
proof (intro conjI impI allI)
  assume "getAppointmentById st aid = None"
  then show "cancelAppointment now st aid reason = (cancelFailure ''Appointment not found'', st)"
    by (simp add: cancelAppointment_def)
next
  assume "getAppointmentById st aid = Some existing \<and> status existing = Cancelled"
  then show "cancelAppointment now st aid reason
        = (cancelFailure ''Appointment is already cancelled'', st)"
    by (simp add: cancelAppointment_def)
next
  assume "getAppointmentById st aid = Some existing \<and> status existing \<noteq> Cancelled
        \<and> startDateISO existing < now"
  then show "cancelAppointment now st aid reason
        = (cancelFailure ''Cannot cancel past appointments'', st)"
    by (simp add: cancelAppointment_def)
next
  assume h: "getAppointmentById st aid = Some existing \<and> status existing \<noteq> Cancelled
        \<and> now \<le> startDateISO existing"
  define cancelled where "cancelled = existing
            \<lparr>status := Cancelled,
             apt_notes := (case reason of
                             None \<Rightarrow> apt_notes existing
                           | Some r \<Rightarrow> if r = [] then apt_notes existing
                                      else Some (cancellationNotes (apt_notes existing) r)),
             updatedAt := Some now\<rparr>"
  have idc: "apt_id cancelled = apt_id existing" by (simp add: cancelled_def)
  from updateAppointment_found[OF conjunct1[OF h] idc]
  obtain index where i: "index < length (appointments st)" "appointments st ! index = existing"
    "updateAppointment st cancelled
       = Inr (st\<lparr>appointments := (appointments st)[index := cancelled]\<rparr>)"
    "getAppointmentById (st\<lparr>appointments := (appointments st)[index := cancelled]\<rparr>) aid
       = Some cancelled"
    by blast
  define st' where "st' = st\<lparr>appointments := (appointments st)[index := cancelled]\<rparr>"
  have run: "cancelAppointment now st aid reason
            = (\<lparr>cr_success = True, cr_appointment = Some cancelled, cr_error = None\<rparr>, st')"
    using h i(3) by (simp add: cancelAppointment_def Let_def cancelled_def[symmetric] st'_def)
  have again: "cancelAppointment now' st' aid reason'
              = (cancelFailure ''Appointment is already cancelled'', st')" for now' reason'
  proof -
    have g: "getAppointmentById st' aid = Some cancelled" using i(4) by (simp only: st'_def)
    have c: "status cancelled = Cancelled" by (simp add: cancelled_def)
    show ?thesis by (simp add: cancelAppointment_def g c)
  qed
  show "\<exists>index cancelled st'.
          cancelled = existing
            \<lparr>status := Cancelled,
             apt_notes := (case reason of
                             None \<Rightarrow> apt_notes existing
                           | Some r \<Rightarrow> if r = [] then apt_notes existing
                                      else Some (cancellationNotes (apt_notes existing) r)),
             updatedAt := Some now\<rparr>
        \<and> index < length (appointments st) \<and> appointments st ! index = existing
        \<and> st' = st\<lparr>appointments := (appointments st)[index := cancelled]\<rparr>
        \<and> cancelAppointment now st aid reason
            = (\<lparr>cr_success = True, cr_appointment = Some cancelled, cr_error = None\<rparr>, st')
        \<and> (\<forall>now' reason'. cancelAppointment now' st' aid reason'
              = (cancelFailure ''Appointment is already cancelled'', st'))"
    using cancelled_def i(1,2) st'_def run again by blast
next
  fix prior r
  assume "\<exists>c \<in> set prior. \<not> isWhiteSpace c"
  then show "cancellationNotes (Some prior) r
               = dropWhile isWhiteSpace prior @ [CHR 0x0A]
                 @ rev (dropWhile isWhiteSpace (rev (''Cancellation reason: '' @ r)))"
    by (rule cancellationNotes_general)
next
  fix prior r
  assume "\<forall>c \<in> set prior. isWhiteSpace c"
  then show "cancellationNotes (Some prior) r
               = rev (dropWhile isWhiteSpace (rev (''Cancellation reason: '' @ r)))"
    by (rule cancellationNotes_blank)
next
  fix r
  show "cancellationNotes None r
               = rev (dropWhile isWhiteSpace (rev (''Cancellation reason: '' @ r)))"
    by (rule cancellationNotes_none)
next
  fix prior r
  assume "prior \<noteq> [] \<and> \<not> isWhiteSpace (hd prior) \<and> r \<noteq> [] \<and> \<not> isWhiteSpace (last r)"
  then show "cancellationNotes (Some prior) r
               = prior @ [CHR 0x0A] @ ''Cancellation reason: '' @ r"
    using cancellationNotes_append by blast
next
  fix r :: string
  assume "r \<noteq> [] \<and> \<not> isWhiteSpace (last r)"
  then show "cancellationNotes None r = ''Cancellation reason: '' @ r"
    using cancellationNotes_first by blast
next
  fix msg
  show "\<not> cr_success (cancelFailure msg)" by (simp add: cancelFailure_def)
  show "cr_error (cancelFailure msg) = Some msg" by (simp add: cancelFailure_def)
qed


theorem cancellation_counterexample:
  "cancelAppointment 1793606400000
     (sampleStore\<lparr>appointments := [sampleAppointment\<lparr>apt_notes := Some '' Bring records''\<rparr>]\<rparr>)
     ''apt-1'' (Some ''Owner is away'')
     = (\<lparr>cr_success = True,
         cr_appointment =
           Some (sampleAppointment
                   \<lparr>status := Cancelled,
                    apt_notes := Some (''Bring records'' @ [CHR 0x0A]
                                        @ ''Cancellation reason: Owner is away''),
                    updatedAt := Some 1793606400000\<rparr>),
         cr_error = None\<rparr>,
        sampleStore\<lparr>appointments :=
          [sampleAppointment
             \<lparr>status := Cancelled,
              apt_notes := Some (''Bring records'' @ [CHR 0x0A]
                                  @ ''Cancellation reason: Owner is away''),
              updatedAt := Some 1793606400000\<rparr>]\<rparr>)
   \<and> take 14 (''Bring records'' @ [CHR 0x0A] @ ''Cancellation reason: Owner is away'')
       \<noteq> '' Bring records''
   \<and> cancelAppointment 1793606400000
     (sampleStore\<lparr>appointments := [sampleAppointment\<lparr>apt_notes := Some ''  ''\<rparr>]\<rparr>)
     ''apt-1'' (Some ''Owner is away'')
     = (\<lparr>cr_success = True,
         cr_appointment =
           Some (sampleAppointment
                   \<lparr>status := Cancelled,
                    apt_notes := Some ''Cancellation reason: Owner is away'',
                    updatedAt := Some 1793606400000\<rparr>),
         cr_error = None\<rparr>,
        sampleStore\<lparr>appointments :=
          [sampleAppointment
             \<lparr>status := Cancelled,
              apt_notes := Some ''Cancellation reason: Owner is away'',
              updatedAt := Some 1793606400000\<rparr>]\<rparr>)"
  by code_simp

lemma sample_cancel:
  "cancelAppointment 1793606400000 sampleStore ''apt-1'' (Some ''Cancelled by owner'')
     = (\<lparr>cr_success = True, cr_appointment = Some cancelledSample, cr_error = None\<rparr>,
        sampleStore\<lparr>appointments := [cancelledSample]\<rparr>)"
  by code_simp

theorem cancellation_witness:
  "cancelAppointment 1793606400000 sampleStore ''apt-1'' (Some ''Cancelled by owner'')
     = (\<lparr>cr_success = True, cr_appointment = Some cancelledSample, cr_error = None\<rparr>,
        sampleStore\<lparr>appointments := [cancelledSample]\<rparr>)
   \<and> cancelAppointment 1793606500000 (sampleStore\<lparr>appointments := [cancelledSample]\<rparr>)
        ''apt-1'' (Some ''Cancelled again'')
     = (cancelFailure ''Appointment is already cancelled'',
        sampleStore\<lparr>appointments := [cancelledSample]\<rparr>)
   \<and> cancelAppointment 1793613600000 sampleStore ''apt-1'' None
     = (cancelFailure ''Cannot cancel past appointments'', sampleStore)
   \<and> cancelAppointment 1793606400000 sampleStore ''apt-7'' None
     = (cancelFailure ''Appointment not found'', sampleStore)
   \<and> cancellationNotes (Some ''Bring records'') ''Cancelled by owner''
     = ''Bring records'' @ [CHR 0x0A] @ ''Cancellation reason: Cancelled by owner''
   \<and> cancellationNotes (Some '' Bring records'') ''Owner is away ''
     = ''Bring records'' @ [CHR 0x0A] @ ''Cancellation reason: Owner is away''
   \<and> cancellationNotes (Some ''  '') ''Owner is away''
     = ''Cancellation reason: Owner is away''"
proof -
  have g: "getAppointmentById sampleStore ''apt-1'' = Some sampleAppointment"
    by (simp add: getAppointmentById_def sampleStore_def sampleAppointment_def)
  have n: "getAppointmentById sampleStore ''apt-7'' = None"
    by (simp add: getAppointmentById_def sampleStore_def sampleAppointment_def)
  have a: "status sampleAppointment \<noteq> Cancelled" "1793606400000 \<le> startDateISO sampleAppointment"
    "startDateISO sampleAppointment < 1793613600000"
    by (simp_all add: sampleAppointment_def)
  note t = cancellation[of sampleStore "''apt-1''" 1793606400000 "Some ''Cancelled by owner''"
             sampleAppointment]
  note ok = t[THEN conjunct2, THEN conjunct2, THEN conjunct2, THEN conjunct1, rule_format,
              OF conjI[OF g conjI[OF a(1) a(2)]]]
  then obtain st' c where
    run: "cancelAppointment 1793606400000 sampleStore ''apt-1'' (Some ''Cancelled by owner'')
            = (\<lparr>cr_success = True, cr_appointment = Some c, cr_error = None\<rparr>, st')"
    and again: "\<forall>now' reason'. cancelAppointment now' st' ''apt-1'' reason'
              = (cancelFailure ''Appointment is already cancelled'', st')"
    by blast
  have st': "st' = sampleStore\<lparr>appointments := [cancelledSample]\<rparr>"
    using run sample_cancel by simp
  have second: "cancelAppointment 1793606500000 (sampleStore\<lparr>appointments := [cancelledSample]\<rparr>)
        ''apt-1'' (Some ''Cancelled again'')
     = (cancelFailure ''Appointment is already cancelled'',
        sampleStore\<lparr>appointments := [cancelledSample]\<rparr>)"
    using again unfolding st' by blast
  note past = cancellation[of sampleStore "''apt-1''" 1793613600000 None sampleAppointment,
                THEN conjunct2, THEN conjunct2, THEN conjunct1, rule_format,
                OF conjI[OF g conjI[OF a(1) a(3)]]]
  note missing = cancellation[of sampleStore "''apt-7''" 1793606400000 None sampleAppointment,
                THEN conjunct1, rule_format, OF n]
  have w: "''Bring records'' \<noteq> [] \<and> \<not> isWhiteSpace (hd ''Bring records'')
           \<and> ''Cancelled by owner'' \<noteq> [] \<and> \<not> isWhiteSpace (last ''Cancelled by owner'')"
    by (simp add: isWhiteSpace_def)
  note appended = t[THEN conjunct2, THEN conjunct2, THEN conjunct2, THEN conjunct2,
                    THEN conjunct2, THEN conjunct2, THEN conjunct2, THEN conjunct1,
                    rule_format, OF w]
  have l: "\<exists>c \<in> set '' Bring records''. \<not> isWhiteSpace c"
    by (simp add: isWhiteSpace_def)
  have "cancellationNotes (Some '' Bring records'') ''Owner is away ''
          = dropWhile isWhiteSpace '' Bring records'' @ [CHR 0x0A]
            @ rev (dropWhile isWhiteSpace (rev (''Cancellation reason: '' @ ''Owner is away '')))"
    by (rule t[THEN conjunct2, THEN conjunct2, THEN conjunct2, THEN conjunct2,
               THEN conjunct1, rule_format, OF l])
  then have leading: "cancellationNotes (Some '' Bring records'') ''Owner is away ''
     = ''Bring records'' @ [CHR 0x0A] @ ''Cancellation reason: Owner is away''"
    by (simp add: isWhiteSpace_def)
  have b: "\<forall>c \<in> set ''  ''. isWhiteSpace c" by (simp add: isWhiteSpace_def)
  have "cancellationNotes (Some ''  '') ''Owner is away''
          = rev (dropWhile isWhiteSpace (rev (''Cancellation reason: '' @ ''Owner is away'')))"
    by (rule t[THEN conjunct2, THEN conjunct2, THEN conjunct2, THEN conjunct2,
               THEN conjunct2, THEN conjunct1, THEN spec, THEN spec, THEN mp, OF b])
  then have blank: "cancellationNotes (Some ''  '') ''Owner is away''
     = ''Cancellation reason: Owner is away''"
    by (simp add: isWhiteSpace_def)
  show ?thesis using sample_cancel second past missing appended leading blank by simp
qed


end
